theory Spec2Isabelle
  imports Main "HOL-Library.Sublist"
begin

section \<open>POSIX paths, as the handlers use them through \<^verbatim>\<open>path.join\<close> and \<^verbatim>\<open>path.dirname\<close>\<close>

text \<open>
  The two code runners of \<^verbatim>\<open>src/server/routes.ts\<close> build every file name with
  \<^verbatim>\<open>path.join\<close>. On a POSIX host \<^verbatim>\<open>path.join\<close> glues its non-empty arguments with
  a slash and normalises the result: empty segments and \<^verbatim>\<open>.\<close> are dropped, and \<^verbatim>\<open>..\<close>
  removes the segment before it (above the root of an absolute path it is dropped,
  in front of a relative path it is kept). A path is a \<^typ>\<open>string\<close>; its segments are
  the pieces between slashes.
\<close>

fun split_sep :: "string \<Rightarrow> string list" where
  "split_sep [] = [[]]"
| "split_sep (c # cs) =
     (if c = CHR ''/'' then [] # split_sep cs
      else (case split_sep cs of s # ss \<Rightarrow> (c # s) # ss | [] \<Rightarrow> [[c]]))"

fun join_sep :: "string list \<Rightarrow> string" where
  "join_sep [] = []"
| "join_sep [s] = s"
| "join_sep (s # t # ss) = s @ ''/'' @ join_sep (t # ss)"

text \<open>
  One step of the normaliser's loop. \<open>res\<close> holds the segments kept so far, the last
  one first.
\<close>

definition normalizeSegment :: "bool \<Rightarrow> string list \<Rightarrow> string \<Rightarrow> string list" where
  "normalizeSegment allowAboveRoot res seg =
     (if seg = [] \<or> seg = ''.'' then res
      else if seg = ''..'' then
        (case res of
           [] \<Rightarrow> (if allowAboveRoot then [''..''] else [])
         | r # rs \<Rightarrow>
             (if r = ''..'' then (if allowAboveRoot then ''..'' # r # rs else r # rs)
              else rs))
      else seg # res)"

definition normalizeString :: "string \<Rightarrow> bool \<Rightarrow> string" where
  "normalizeString p allowAboveRoot =
     join_sep (rev (foldl (normalizeSegment allowAboveRoot) [] (split_sep p)))"

definition path_normalize :: "string \<Rightarrow> string" where
  "path_normalize p =
     (if p = [] then ''.''
      else
        let isAbsolute = (hd p = CHR ''/'');
            trailingSeparator = (last p = CHR ''/'');
            q = normalizeString p (\<not> isAbsolute)
        in if q = [] then (if isAbsolute then ''/'' else if trailingSeparator then ''./'' else ''.'')
           else (if isAbsolute then ''/'' else []) @ q @ (if trailingSeparator then ''/'' else []))"

definition path_join :: "string list \<Rightarrow> string" where
  "path_join args =
     (let joined = join_sep (filter (\<lambda>a. a \<noteq> []) args)
      in if joined = [] then ''.'' else path_normalize joined)"

definition path_dirname :: "string \<Rightarrow> string" where
  "path_dirname p =
     (if p = [] then ''.''
      else
        let r = dropWhile (\<lambda>c. c \<noteq> CHR ''/'') (dropWhile (\<lambda>c. c = CHR ''/'') (rev (tl p)))
        in if r = [] then (if hd p = CHR ''/'' then ''/'' else ''.'')
           else if hd p = CHR ''/'' \<and> length r = 1 then ''//''
           else take (length r) p)"

text \<open>
  Two predicates for the proofs about paths. A stack of kept segments is \<open>normal\<close> when
  the normaliser would keep it as it is; a segment is \<open>plain\<close> when it is a file or
  directory name.
\<close>

fun normal :: "bool \<Rightarrow> string list \<Rightarrow> bool" where
  "normal allow [] = True"
| "normal allow (x # st) =
     (normal allow st \<and> CHR ''/'' \<notin> set x \<and> x \<noteq> [] \<and> x \<noteq> ''.'' \<and>
      (x = ''..'' \<longrightarrow> allow \<and> (st = [] \<or> hd st = ''..'')))"

definition plain :: "string \<Rightarrow> bool" where
  "plain s = (s \<noteq> [] \<and> CHR ''/'' \<notin> set s \<and> s \<noteq> ''.'' \<and> s \<noteq> ''..'')"

section \<open>Requests, results and what a handler does\<close>

text \<open>
  The request body is the JSON object both handlers destructure; a field the caller
  left out is \<open>None\<close>. \<^verbatim>\<open>files\<close> is kept as a JavaScript value, because the
  handler tests it with \<^verbatim>\<open>!files\<close> and \<^verbatim>\<open>Array.isArray\<close> before it trusts its type.
\<close>

record file_entry =
  path :: "string option"
  content :: "string option"

datatype js_value =
    JUndefined
  | JNull
  | JBool bool
  | JNumber int
  | JString string
  | JObject
  | JArray "file_entry list"

fun truthy :: "js_value \<Rightarrow> bool" where
  "truthy JUndefined = False"
| "truthy JNull = False"
| "truthy (JBool v) = v"
| "truthy (JNumber n) = (n \<noteq> 0)"
| "truthy (JString s) = (s \<noteq> [])"
| "truthy JObject = True"
| "truthy (JArray fs) = True"

fun isArray :: "js_value \<Rightarrow> bool" where
  "isArray (JArray fs) = True"
| "isArray v = False"

fun elements :: "js_value \<Rightarrow> file_entry list" where
  "elements (JArray fs) = fs"
| "elements v = []"

record body =
  code :: "string option"
  files :: js_value
  language :: "string option"
  command :: "string option"

text \<open>
  An exit code as the response carries it: \<^verbatim>\<open>null\<close>, a number, or the name of an
  error (\<^verbatim>\<open>exec\<close> puts it in the same field of its error object).
\<close>

datatype js_code = CNull | CNum int | CStr string

record result =
  stdout :: string
  stderr :: string
  exitCode :: js_code
  timedOut :: "bool option"
  imageUsed :: "string option"

datatype response =
    Status nat string
  | Json result

text \<open>
  What the child does, as the handler sees it. The call that starts it may throw. Or
  the program cannot be started (no such binary, no permission): Node reports that
  after the call has returned, as an \<^verbatim>\<open>error\<close> event on the child object. Or the child
  runs, and its events arrive in the order listed: \<open>StdoutData\<close> and \<open>StderrData\<close> are
  the \<^verbatim>\<open>data\<close> events of the two streams, \<open>TimerFired\<close> is the expiry of the deadline
  timer, and \<open>Closed code signal\<close> is the child's end, with \<open>code = None\<close> when a signal
  ended it. A list without \<open>Closed\<close> is a child that has not ended. A \<^verbatim>\<open>data\<close> event
  carries what its listener is handed: in Project mode the bytes of one read; in
  Direct mode, where \<^verbatim>\<open>exec\<close> has set the encoding of the streams, a piece of text.
\<close>

datatype child_event =
    StdoutData string
  | StderrData string
  | TimerFired
  | Closed "nat option" "string option"

datatype child =
    SpawnThrows
  | SpawnError string
  | Running "child_event list"

text \<open>
  The host: the scratch root \<^verbatim>\<open>os.tmpdir()\<close>, the random characters \<^verbatim>\<open>mkdtempSync\<close>
  appends to its prefix, which file system calls throw, and the child. \<^verbatim>\<open>rmSync\<close> is
  called with \<^verbatim>\<open>force\<close> and is taken to succeed.
\<close>

record env =
  tmpdir :: string
  random_suffix :: string
  mkdtemp_fails :: bool
  mkdir_fails :: "string \<Rightarrow> bool"
  write_fails :: "string \<Rightarrow> bool"
  child :: child

text \<open>
  A handler is modelled by the list of what it does to the outside, in order: the
  file system calls, the launch (\<open>Exec\<close>: a command string for the shell, with the
  timeout; \<open>Spawn\<close>: a program and its arguments), the timer calls, the kill and the
  response.
\<close>

datatype effect =
    Mkdtemp string
  | Mkdir string
  | WriteFile string string
  | RmSync string
  | Exec string nat
  | Spawn string "string list"
  | SetTimeout nat
  | Kill string
  | ClearTimeout
  | Respond response

definition mkdtempSync :: "env \<Rightarrow> string \<Rightarrow> string" where
  "mkdtempSync e pre = pre @ random_suffix e"

section \<open>The simple code runner: \<^verbatim>\<open>POST /api/run\<close>\<close>

text \<open>
  \<^verbatim>\<open>exec\<close> hands the handler's callback an error object or \<^verbatim>\<open>null\<close>, and the two
  buffers. The error carries a code (the exit code, \<^verbatim>\<open>null\<close> after a signal, or the
  name of the error), whether \<^verbatim>\<open>exec\<close> itself killed the child, and the signal.
\<close>

record exec_error =
  err_code :: js_code
  killed :: bool
  signal :: "string option"

text \<open>
  The handler passes no \<^verbatim>\<open>maxBuffer\<close>, so each stream is cut at the default of 1 MiB;
  the error \<^verbatim>\<open>exec\<close> makes for that has no \<^verbatim>\<open>killed\<close> and no \<^verbatim>\<open>signal\<close>.
\<close>

definition maxBuffer :: nat where
  "maxBuffer = 1024 * 1024"

definition maxBufferError :: exec_error where
  "maxBufferError =
     \<lparr>err_code = CStr ''ERR_CHILD_PROCESS_STDIO_MAXBUFFER'', killed = False, signal = None\<rparr>"

text \<open>
  The end of the child under \<^verbatim>\<open>exec\<close>: an error made earlier is passed on; otherwise
  exit code 0 without a signal is success, and anything else is an error that
  carries the code, the signal and whether \<^verbatim>\<open>exec\<close> killed the child.
\<close>

definition exithandler ::
  "nat option \<Rightarrow> string option \<Rightarrow> bool \<Rightarrow> exec_error option \<Rightarrow> exec_error option"
where
  "exithandler c sig k ex =
     (case ex of
        Some x \<Rightarrow> Some x
      | None \<Rightarrow>
          if c = Some 0 \<and> sig = None then None
          else Some \<lparr>err_code = (case c of None \<Rightarrow> CNull | Some n \<Rightarrow> CNum (int n)),
                     killed = k, signal = sig\<rparr>)"

text \<open>
  \<^verbatim>\<open>exec\<close> with \<^verbatim>\<open>timeout: 8000\<close>: it appends what the child prints to its buffers, and
  when a buffer would pass \<^verbatim>\<open>maxBuffer\<close> it keeps what fits, makes the error and kills
  the child; when the timer fires it kills the child; killing closes its ends of the
  pipes, notes the kill and sends \<^verbatim>\<open>SIGTERM\<close>; when the child has ended it calls back.
  \<open>k\<close> is the note of the kill, \<open>ex\<close> the error made so far. The result \<open>None\<close>: the
  callback has not been called.
\<close>

fun exec_events ::
  "child_event list \<Rightarrow> string \<Rightarrow> string \<Rightarrow> bool \<Rightarrow> exec_error option \<Rightarrow>
   (exec_error option \<times> string \<times> string) option"
where
  "exec_events [] out err k ex = None"
| "exec_events (StdoutData d # es) out err k ex =
     (if k then exec_events es out err k ex
      else if length out + length d > maxBuffer
        then exec_events es (out @ take (maxBuffer - length out) d) err True (Some maxBufferError)
      else exec_events es (out @ d) err k ex)"
| "exec_events (StderrData d # es) out err k ex =
     (if k then exec_events es out err k ex
      else if length err + length d > maxBuffer
        then exec_events es out (err @ take (maxBuffer - length err) d) True (Some maxBufferError)
      else exec_events es out (err @ d) k ex)"
| "exec_events (TimerFired # es) out err k ex = exec_events es out err True ex"
| "exec_events (Closed c sig # es) out err k ex = Some (exithandler c sig k ex, out, err)"

text \<open>
  The callback of \<^verbatim>\<open>/api/run\<close>: respond, then remove the scratch directory. The exit
  code is \<^verbatim>\<open>error?.code || 0\<close>: 0 without an error, and 0 also for a code that is
  \<^verbatim>\<open>null\<close>, 0 or the empty string.
\<close>

definition run_callback :: "string \<Rightarrow> exec_error option \<Rightarrow> string \<Rightarrow> string \<Rightarrow> effect list" where
  "run_callback dir error out err =
     [Respond (Json \<lparr>stdout = out, stderr = err,
        exitCode =
          (case error of
             None \<Rightarrow> CNum 0
           | Some x \<Rightarrow>
               (case err_code x of
                  CNull \<Rightarrow> CNum 0
                | CNum n \<Rightarrow> (if n = 0 then CNum 0 else CNum n)
                | CStr s \<Rightarrow> (if s = [] then CNum 0 else CStr s))),
        timedOut = Some (case error of None \<Rightarrow> False | Some x \<Rightarrow> killed x),
        imageUsed = None\<rparr>),
      RmSync dir]"

definition run_lang :: "body \<Rightarrow> string" where
  "run_lang b = (if language b = Some ''python'' then ''python'' else ''javascript'')"

definition run_ext :: "body \<Rightarrow> string" where
  "run_ext b = (if run_lang b = ''python'' then ''.py'' else ''.js'')"

definition run_cmd :: "body \<Rightarrow> string" where
  "run_cmd b = (if run_lang b = ''python'' then ''python3'' else ''node'')"

definition run_dir :: "env \<Rightarrow> string" where
  "run_dir e = mkdtempSync e (path_join [tmpdir e, ''vipurun-''])"

definition run_filePath :: "env \<Rightarrow> body \<Rightarrow> string" where
  "run_filePath e b = path_join [run_dir e, ''main'' @ run_ext b]"

text \<open>The command string given to \<^verbatim>\<open>exec\<close>: the interpreter, a space, the file name in double quotes.\<close>

definition run_command :: "env \<Rightarrow> body \<Rightarrow> string" where
  "run_command e b = run_cmd b @ '' '' @ [CHR 0x22] @ run_filePath e b @ [CHR 0x22]"

text \<open>
  The handler. The \<^verbatim>\<open>catch\<close> block only responds: \<^verbatim>\<open>dir\<close> is declared inside the \<^verbatim>\<open>try\<close>
  and is out of its reach. When the shell cannot be started, \<^verbatim>\<open>exec\<close> calls back with
  that error and empty buffers.
\<close>

fun run :: "env \<Rightarrow> body \<Rightarrow> effect list" where
  "run e b =
     (case code b of
        None \<Rightarrow> [Respond (Status 400 ''Code required'')]
      | Some c \<Rightarrow>
          if c = [] then [Respond (Status 400 ''Code required'')]
          else if mkdtemp_fails e then [Respond (Status 500 ''Failed to execute'')]
          else if write_fails e (run_filePath e b)
            then [Mkdtemp (run_dir e), Respond (Status 500 ''Failed to execute'')]
          else
            [Mkdtemp (run_dir e), WriteFile (run_filePath e b) c] @
            (case child e of
               SpawnThrows \<Rightarrow> [Respond (Status 500 ''Failed to execute'')]
             | SpawnError name \<Rightarrow>
                 Exec (run_command e b) 8000 #
                 run_callback (run_dir e)
                   (Some \<lparr>err_code = CStr name, killed = False, signal = None\<rparr>) [] []
             | Running evs \<Rightarrow>
                 Exec (run_command e b) 8000 #
                 (case exec_events evs [] [] False None of
                    None \<Rightarrow> []
                  | Some (error, out, err) \<Rightarrow> run_callback (run_dir e) error out err)))"

section \<open>The Docker sandbox: \<^verbatim>\<open>POST /api/run-project\<close>\<close>

text \<open>
  \<^verbatim>\<open>toLowerCase\<close> on the letters A to Z. The other characters it changes are outside
  ASCII and none of them becomes a letter of \<^verbatim>\<open>python\<close>, so the comparison with
  \<^verbatim>\<open>"python"\<close> below does not see them.
\<close>

definition lower_char :: "char \<Rightarrow> char" where
  "lower_char c =
     (case map_of (zip ''ABCDEFGHIJKLMNOPQRSTUVWXYZ'' ''abcdefghijklmnopqrstuvwxyz'') c of
        None \<Rightarrow> c
      | Some l \<Rightarrow> l)"

definition toLowerCase :: "string \<Rightarrow> string" where
  "toLowerCase s = map lower_char s"

definition project_lang :: "body \<Rightarrow> string" where
  "project_lang b =
     toLowerCase (case language b of None \<Rightarrow> ''node'' | Some l \<Rightarrow> if l = [] then ''node'' else l)"

definition project_image :: "body \<Rightarrow> string" where
  "project_image b = (if project_lang b = ''python'' then ''python:3.11'' else ''node:18'')"

definition defaultCmd :: "body \<Rightarrow> string" where
  "defaultCmd b = (if project_lang b = ''python'' then ''python main.py'' else ''node main.js'')"

text \<open>\<^verbatim>\<open>(f.path || "").replace(/^[/\\]+/, "")\<close>: the leading slashes and backslashes go.\<close>

definition safe_of :: "file_entry \<Rightarrow> string" where
  "safe_of f =
     dropWhile (\<lambda>c. c = CHR ''/'' \<or> c = CHR 0x5C) (case path f of None \<Rightarrow> [] | Some p \<Rightarrow> p)"

definition dest_of :: "string \<Rightarrow> file_entry \<Rightarrow> string" where
  "dest_of tempDir f =
     path_join [tempDir, if safe_of f = [] then ''main.js'' else safe_of f]"

text \<open>
  The loop over \<^verbatim>\<open>files\<close>. The second component is \<open>False\<close> when \<^verbatim>\<open>mkdirSync\<close> or
  \<^verbatim>\<open>writeFileSync\<close> threw; the entries after that one are not reached.
\<close>

fun write_files :: "env \<Rightarrow> string \<Rightarrow> file_entry list \<Rightarrow> effect list \<times> bool" where
  "write_files e tempDir [] = ([], True)"
| "write_files e tempDir (f # fs) =
     (let dest = dest_of tempDir f in
      if mkdir_fails e (path_dirname dest) then ([], False)
      else if write_fails e dest then ([Mkdir (path_dirname dest)], False)
      else
        (case write_files e tempDir fs of
           (effs, ok) \<Rightarrow>
             (Mkdir (path_dirname dest) #
              WriteFile dest (case content f of None \<Rightarrow> [] | Some c \<Rightarrow> c) # effs, ok)))"

definition project_tempDir :: "env \<Rightarrow> string" where
  "project_tempDir e = mkdtempSync e (path_join [tmpdir e, ''vipuproject-''])"

definition dockerArgs :: "env \<Rightarrow> body \<Rightarrow> string list" where
  "dockerArgs e b =
     [''run'',
      ''--rm'',
      ''--network'',
      ''none'',
      ''--memory'',
      ''512m'',
      ''--cpus'',
      ''1'',
      ''-v'',
      project_tempDir e @ '':/app'',
      ''-w'',
      ''/app'',
      project_image b,
      ''bash'',
      ''-lc'',
      (case command b of None \<Rightarrow> defaultCmd b | Some c \<Rightarrow> if c = [] then defaultCmd b else c)]"

text \<open>
  \<^verbatim>\<open>d.toString()\<close>: each chunk the child's stream hands over is a buffer of bytes, and
  the handler decodes it as UTF-8, on its own. A JavaScript string is kept here as its
  UTF-8 bytes, so decoding returns well-formed text as it is and puts the replacement
  character U+FFFD (\<^verbatim>\<open>EF BF BD\<close>) for every ill-formed piece: a byte that cannot start a
  character, or the started part of a character that the next byte, or the end of the
  chunk, does not continue. \<open>needed\<close> counts the bytes still missing of the character
  in hand, \<open>seen\<close> holds its bytes so far, and \<open>lower\<close> and \<open>upper\<close> bound the next byte.
\<close>

definition replacement :: string where
  "replacement = [CHR 0xEF, CHR 0xBF, CHR 0xBD]"

fun utf8_decode :: "nat \<Rightarrow> nat \<Rightarrow> nat \<Rightarrow> string \<Rightarrow> string \<Rightarrow> string" where
  "utf8_decode needed lower upper seen [] = (if needed = 0 then [] else replacement)"
| "utf8_decode needed lower upper seen (c # cs) =
     (if needed = 0 then
        (if of_char c \<le> (0x7F :: nat) then c # utf8_decode 0 0x80 0xBF [] cs
         else if (0xC2 :: nat) \<le> of_char c \<and> of_char c \<le> (0xDF :: nat)
           then utf8_decode 1 0x80 0xBF [c] cs
         else if (0xE0 :: nat) \<le> of_char c \<and> of_char c \<le> (0xEF :: nat)
           then utf8_decode 2 (if c = CHR 0xE0 then 0xA0 else 0x80)
                  (if c = CHR 0xED then 0x9F else 0xBF) [c] cs
         else if (0xF0 :: nat) \<le> of_char c \<and> of_char c \<le> (0xF4 :: nat)
           then utf8_decode 3 (if c = CHR 0xF0 then 0x90 else 0x80)
                  (if c = CHR 0xF4 then 0x8F else 0xBF) [c] cs
         else replacement @ utf8_decode 0 0x80 0xBF [] cs)
      else if of_char c < lower \<or> upper < of_char c
        then replacement @ utf8_decode 0 0x80 0xBF [] (c # cs)
      else if needed = 1 then seen @ [c] @ utf8_decode 0 0x80 0xBF [] cs
      else utf8_decode (needed - 1) 0x80 0xBF (seen @ [c]) cs)"

definition toString :: "string \<Rightarrow> string" where
  "toString d = utf8_decode 0 0x80 0xBF [] d"

text \<open>
  The listeners the handler puts on the child: the two \<^verbatim>\<open>data\<close> listeners append the
  decoded chunk to the buffers, the timer kills the child with \<^verbatim>\<open>SIGKILL\<close>, and \<^verbatim>\<open>close\<close> clears the
  timer, removes the scratch directory and responds. There is no listener for
  \<^verbatim>\<open>error\<close>.
\<close>

fun project_events ::
  "string \<Rightarrow> string \<Rightarrow> child_event list \<Rightarrow> string \<Rightarrow> string \<Rightarrow> bool \<Rightarrow> effect list"
where
  "project_events tempDir img [] out err armed = []"
| "project_events tempDir img (StdoutData d # es) out err armed =
     project_events tempDir img es (out @ toString d) err armed"
| "project_events tempDir img (StderrData d # es) out err armed =
     project_events tempDir img es out (err @ toString d) armed"
| "project_events tempDir img (TimerFired # es) out err armed =
     (if armed then Kill ''SIGKILL'' # project_events tempDir img es out err False
      else project_events tempDir img es out err False)"
| "project_events tempDir img (Closed c sig # es) out err armed =
     [ClearTimeout,
      RmSync tempDir,
      Respond (Json \<lparr>stdout = out, stderr = err,
        exitCode = (case c of None \<Rightarrow> CNull | Some n \<Rightarrow> CNum (int n)),
        timedOut = None,
        imageUsed = Some img\<rparr>)]"

text \<open>The \<^verbatim>\<open>catch\<close> block: \<^verbatim>\<open>tempDir\<close> is still \<^verbatim>\<open>""\<close> when \<^verbatim>\<open>mkdtempSync\<close> threw.\<close>

definition project_catch :: "string \<Rightarrow> effect list" where
  "project_catch tempDir =
     (if tempDir \<noteq> [] then [RmSync tempDir] else []) @
     [Respond (Status 500 ''Docker execution failed'')]"

text \<open>
  The handler. On an \<^verbatim>\<open>error\<close> event of the child there is nothing more to list: no
  listener of the handler takes the event, Node raises it as an uncaught exception,
  and neither the \<^verbatim>\<open>close\<close> listener nor the \<^verbatim>\<open>catch\<close> block (which guards the
  synchronous part only) runs.
\<close>

fun run_project :: "env \<Rightarrow> body \<Rightarrow> effect list" where
  "run_project e b =
     (if \<not> truthy (files b) \<or> \<not> isArray (files b)
        then [Respond (Status 400 ''files[] required'')]
      else if mkdtemp_fails e then project_catch []
      else
        (case write_files e (project_tempDir e) (elements (files b)) of
           (effs, ok) \<Rightarrow>
             Mkdtemp (project_tempDir e) # effs @
             (if \<not> ok then project_catch (project_tempDir e)
              else
                (case child e of
                   SpawnThrows \<Rightarrow> project_catch (project_tempDir e)
                 | SpawnError name \<Rightarrow> [Spawn ''docker'' (dockerArgs e b), SetTimeout 20000]
                 | Running evs \<Rightarrow>
                     Spawn ''docker'' (dockerArgs e b) # SetTimeout 20000 #
                     project_events (project_tempDir e) (project_image b) evs [] [] True))))"

declare run.simps [simp del] run_project.simps [simp del]

text \<open>Reading a trace of effects.\<close>

fun is_launch :: "effect \<Rightarrow> bool" where
  "is_launch (Exec c t) = True"
| "is_launch (Spawn p args) = True"
| "is_launch x = False"

fun is_respond :: "effect \<Rightarrow> bool" where
  "is_respond (Respond r) = True"
| "is_respond x = False"

fun is_write :: "effect \<Rightarrow> bool" where
  "is_write (WriteFile p c) = True"
| "is_write x = False"

definition launches :: "effect list \<Rightarrow> effect list" where
  "launches effs = filter is_launch effs"

definition responses :: "effect list \<Rightarrow> effect list" where
  "responses effs = filter is_respond effs"

definition writes :: "effect list \<Rightarrow> effect list" where
  "writes effs = filter is_write effs"

fun is_rm :: "effect \<Rightarrow> bool" where
  "is_rm (RmSync d) = True"
| "is_rm x = False"

definition removals :: "effect list \<Rightarrow> effect list" where
  "removals effs = filter is_rm effs"

text \<open>
  \<^verbatim>\<open>src/unnamed/part_000\<close> holds a second copy of the two handlers, without the type
  casts. Its \<^verbatim>\<open>/api/run\<close> is the one above. Its \<^verbatim>\<open>/api/run-project\<close> differs in one
  expression: it calls \<^verbatim>\<open>f.path.replace\<close> without the \<^verbatim>\<open>|| ""\<close>, so reading \<^verbatim>\<open>replace\<close>
  of an absent path throws (\<open>None\<close>), inside the \<^verbatim>\<open>try\<close>, before anything is done for
  that entry.
\<close>

definition safe_of_part_000 :: "file_entry \<Rightarrow> string option" where
  "safe_of_part_000 f =
     (case path f of
        None \<Rightarrow> None
      | Some p \<Rightarrow> Some (dropWhile (\<lambda>c. c = CHR ''/'' \<or> c = CHR 0x5C) p))"

fun write_files_part_000 :: "env \<Rightarrow> string \<Rightarrow> file_entry list \<Rightarrow> effect list \<times> bool" where
  "write_files_part_000 e tempDir [] = ([], True)"
| "write_files_part_000 e tempDir (f # fs) =
     (case safe_of_part_000 f of
        None \<Rightarrow> ([], False)
      | Some safe \<Rightarrow>
          (let dest = path_join [tempDir, if safe = [] then ''main.js'' else safe] in
           if mkdir_fails e (path_dirname dest) then ([], False)
           else if write_fails e dest then ([Mkdir (path_dirname dest)], False)
           else
             (case write_files_part_000 e tempDir fs of
                (effs, ok) \<Rightarrow>
                  (Mkdir (path_dirname dest) #
                   WriteFile dest (case content f of None \<Rightarrow> [] | Some c \<Rightarrow> c) # effs, ok))))"

fun run_project_part_000 :: "env \<Rightarrow> body \<Rightarrow> effect list" where
  "run_project_part_000 e b =
     (if \<not> truthy (files b) \<or> \<not> isArray (files b)
        then [Respond (Status 400 ''files[] required'')]
      else if mkdtemp_fails e then project_catch []
      else
        (case write_files_part_000 e (project_tempDir e) (elements (files b)) of
           (effs, ok) \<Rightarrow>
             Mkdtemp (project_tempDir e) # effs @
             (if \<not> ok then project_catch (project_tempDir e)
              else
                (case child e of
                   SpawnThrows \<Rightarrow> project_catch (project_tempDir e)
                 | SpawnError name \<Rightarrow> [Spawn ''docker'' (dockerArgs e b), SetTimeout 20000]
                 | Running evs \<Rightarrow>
                     Spawn ''docker'' (dockerArgs e b) # SetTimeout 20000 #
                     project_events (project_tempDir e) (project_image b) evs [] [] True))))"

declare run_project_part_000.simps [simp del]

text \<open>
  What a list of events holds: the chunks of each stream put together, and whether
  the child's end is among the events.
\<close>

fun stdout_of :: "child_event list \<Rightarrow> string" where
  "stdout_of [] = []"
| "stdout_of (StdoutData d # es) = d @ stdout_of es"
| "stdout_of (ev # es) = stdout_of es"

fun stderr_of :: "child_event list \<Rightarrow> string" where
  "stderr_of [] = []"
| "stderr_of (StderrData d # es) = d @ stderr_of es"
| "stderr_of (ev # es) = stderr_of es"

text \<open>The same for Project mode, where each chunk is decoded on its own.\<close>

fun stdout_text :: "child_event list \<Rightarrow> string" where
  "stdout_text [] = []"
| "stdout_text (StdoutData d # es) = toString d @ stdout_text es"
| "stdout_text (ev # es) = stdout_text es"

fun stderr_text :: "child_event list \<Rightarrow> string" where
  "stderr_text [] = []"
| "stderr_text (StderrData d # es) = toString d @ stderr_text es"
| "stderr_text (ev # es) = stderr_text es"

fun is_closed :: "child_event \<Rightarrow> bool" where
  "is_closed (Closed c sig) = True"
| "is_closed ev = False"

definition open_events :: "child_event list \<Rightarrow> bool" where
  "open_events evs = (filter is_closed evs = [])"

text \<open>
  A Project-mode request reaches the launch when \<^verbatim>\<open>files\<close> is an array, the scratch
  directory could be made and every file could be written.
\<close>

definition reaches_launch :: "env \<Rightarrow> body \<Rightarrow> bool" where
  "reaches_launch e b =
     (isArray (files b) \<and> \<not> mkdtemp_fails e \<and>
      snd (write_files e (project_tempDir e) (elements (files b))))"

text \<open>
  A Direct-mode request reaches the launch when \<^verbatim>\<open>code\<close> is a non-empty string, the
  scratch directory could be made and the source file could be written.
\<close>

definition reaches_exec :: "env \<Rightarrow> body \<Rightarrow> bool" where
  "reaches_exec e b =
     ((case code b of None \<Rightarrow> False | Some c \<Rightarrow> c \<noteq> []) \<and> \<not> mkdtemp_fails e \<and>
      \<not> write_fails e (run_filePath e b))"

text \<open>A host where nothing fails, and two requests, for the examples below.\<close>

definition host :: "child \<Rightarrow> env" where
  "host ch = \<lparr>tmpdir = ''/tmp'', random_suffix = ''Ab3dEf'', mkdtemp_fails = False,
     mkdir_fails = (\<lambda>p. False), write_fails = (\<lambda>p. False), child = ch\<rparr>"

definition project_body :: "file_entry list \<Rightarrow> string option \<Rightarrow> body" where
  "project_body fs lang = \<lparr>code = None, files = JArray fs, language = lang, command = None\<rparr>"

definition run_body :: "string \<Rightarrow> string option \<Rightarrow> body" where
  "run_body c lang = \<lparr>code = Some c, files = JUndefined, language = lang, command = None\<rparr>"

section \<open>Properties\<close>

subsection \<open>Paths\<close>

lemma split_sep_not_Nil [simp]: "split_sep s \<noteq> []"
  by (induction s) (auto split: list.splits)

lemma split_sep_no_slash: "CHR ''/'' \<notin> set s \<Longrightarrow> split_sep s = [s]"
  by (induction s) auto

lemma split_sep_append: "split_sep (a @ CHR ''/'' # b) = split_sep a @ split_sep b"
  by (induction a) (auto split: list.splits)

lemma split_sep_seg_append:
  "CHR ''/'' \<notin> set s \<Longrightarrow> split_sep (s @ CHR ''/'' # b) = s # split_sep b"
  by (simp add: split_sep_append split_sep_no_slash)

lemma split_sep_segments: "s \<in> set (split_sep p) \<Longrightarrow> CHR ''/'' \<notin> set s"
  by (induction p arbitrary: s) (auto split: if_splits list.splits)

lemma split_join:
  "segs \<noteq> [] \<Longrightarrow> (\<forall>s \<in> set segs. CHR ''/'' \<notin> set s) \<Longrightarrow> split_sep (join_sep segs) = segs"
proof (induction segs rule: join_sep.induct)
  case 1
  then show ?case by simp
next
  case (2 s)
  then show ?case by (simp add: split_sep_no_slash)
next
  case (3 s t ss)
  then show ?case by (simp add: split_sep_seg_append)
qed

lemma join_sep_snoc: "xs \<noteq> [] \<Longrightarrow> join_sep (xs @ [s]) = join_sep xs @ ''/'' @ s"
  by (induction xs rule: join_sep.induct) auto

lemma join_sep_last_append: "join_sep (xs @ [s]) @ t = join_sep (xs @ [s @ t])"
  by (induction xs rule: join_sep.induct) auto

lemma normal_step:
  "normal allow res \<Longrightarrow> CHR ''/'' \<notin> set seg \<Longrightarrow> normal allow (normalizeSegment allow res seg)"
  by (cases res) (auto simp: normalizeSegment_def)

lemma normal_foldl:
  "normal allow res \<Longrightarrow> (\<forall>s \<in> set segs. CHR ''/'' \<notin> set s) \<Longrightarrow>
   normal allow (foldl (normalizeSegment allow) res segs)"
  by (induction segs arbitrary: res) (auto simp: normal_step)

lemma foldl_fixed: "normal allow st \<Longrightarrow> foldl (normalizeSegment allow) [] (rev st) = st"
proof (induction st)
  case Nil
  then show ?case by simp
next
  case (Cons x st)
  then show ?case by (cases st) (auto simp: normalizeSegment_def)
qed

lemma hd_join_sep: "xs \<noteq> [] \<Longrightarrow> hd xs \<noteq> [] \<Longrightarrow> hd (join_sep xs) = hd (hd xs)"
  by (induction xs rule: join_sep.induct) auto

lemma last_join_sep:
  "xs \<noteq> [] \<Longrightarrow> last xs \<noteq> [] \<Longrightarrow> join_sep xs \<noteq> [] \<and> last (join_sep xs) = last (last xs)"
  by (induction xs rule: join_sep.induct) auto

lemma normal_segments: "normal allow st \<Longrightarrow> s \<in> set st \<Longrightarrow> CHR ''/'' \<notin> set s \<and> s \<noteq> []"
  by (induction st) auto


lemma normalize_fixed:
  assumes st: "normal (\<not> isAbs) st" and ne: "st \<noteq> []"
  shows "path_normalize ((if isAbs then ''/'' else []) @ join_sep (rev st)) =
         (if isAbs then ''/'' else []) @ join_sep (rev st)"
proof -
  let ?segs = "rev st"
  let ?q = "join_sep ?segs"
  have segs: "\<forall>s \<in> set ?segs. CHR ''/'' \<notin> set s \<and> s \<noteq> []"
    using normal_segments [OF st] by auto
  have segs_ne: "?segs \<noteq> []" using ne by simp
  have hd_ne: "hd ?segs \<noteq> []" and last_ne: "last ?segs \<noteq> []"
    using segs segs_ne by (auto simp: hd_rev last_rev)
  have q_ne: "?q \<noteq> []" using last_join_sep [OF segs_ne last_ne] by simp
  have hd_q: "hd ?q \<noteq> CHR ''/''"
    using hd_join_sep [OF segs_ne hd_ne] segs segs_ne hd_ne
    by (metis hd_in_set)
  have last_q: "last ?q \<noteq> CHR ''/''"
    using last_join_sep [OF segs_ne last_ne] segs segs_ne last_ne
    by (metis last_in_set)
  have split: "split_sep ?q = ?segs"
    using split_join [OF segs_ne] segs by blast
  have fold: "foldl (normalizeSegment (\<not> isAbs)) [] ?segs = st"
    by (rule foldl_fixed [OF st])
  show ?thesis
  proof (cases isAbs)
    case True
    have "split_sep (CHR ''/'' # ?q) = [] # ?segs" using split by simp
    then have "normalizeString (CHR ''/'' # ?q) False = ?q"
      using fold True by (simp add: normalizeString_def normalizeSegment_def)
    then show ?thesis using True q_ne last_q
      by (simp add: path_normalize_def)
  next
    case False
    have "normalizeString ?q True = ?q"
      using fold False split by (simp add: normalizeString_def)
    then show ?thesis using False q_ne last_q hd_q
      by (simp add: path_normalize_def)
  qed
qed


lemma plain_ends: "plain s \<Longrightarrow> hd s \<noteq> CHR ''/'' \<and> last s \<noteq> CHR ''/''"
  unfolding plain_def using hd_in_set [of s] last_in_set [of s] by metis

lemma plain_split: "plain s \<Longrightarrow> split_sep s = [s]"
  by (simp add: plain_def split_sep_no_slash)

lemma plain_step: "plain s \<Longrightarrow> normalizeSegment allow res s = s # res"
  by (simp add: plain_def normalizeSegment_def)

lemma plain_normal: "plain s \<Longrightarrow> normal allow st \<Longrightarrow> normal allow (s # st)"
  by (simp add: plain_def)

lemma join_shape:
  assumes pre: "plain pre"
  shows "\<exists>isAbs st. normal (\<not> isAbs) (pre # st) \<and>
           path_join [t, pre] = (if isAbs then ''/'' else []) @ join_sep (rev (pre # st))"
proof (cases "t = []")
  case True
  have "normalizeString pre True = pre"
    using pre by (simp add: normalizeString_def plain_split plain_step)
  moreover have "pre \<noteq> []" "hd pre \<noteq> CHR ''/''" "last pre \<noteq> CHR ''/''"
    using pre plain_ends [of pre] by (simp_all add: plain_def)
  ultimately have "path_join [t, pre] = pre"
    using True by (simp add: path_join_def path_normalize_def)
  moreover have "normal True [pre]" using pre by (simp add: plain_def)
  ultimately show ?thesis
    by (intro exI [of _ False] exI [of _ "[]"]) simp
next
  case False
  define isAbs where "isAbs = (hd t = CHR ''/'')"
  define st where "st = foldl (normalizeSegment (\<not> isAbs)) [] (split_sep t)"
  let ?p = "t @ ''/'' @ pre"
  have st: "normal (\<not> isAbs) st"
    unfolding st_def by (rule normal_foldl) (auto dest: split_sep_segments)
  have nst: "normal (\<not> isAbs) (pre # st)" by (rule plain_normal [OF pre st])
  have split: "split_sep ?p = split_sep t @ [pre]"
    using pre by (simp add: split_sep_append plain_split)
  have q: "normalizeString ?p (\<not> isAbs) = join_sep (rev (pre # st))"
    using pre split by (simp add: normalizeString_def st_def plain_step)
  have segs_ne: "rev (pre # st) \<noteq> []" by simp
  have last_ne: "last (rev (pre # st)) \<noteq> []"
    using normal_segments [OF nst] by (simp add: last_rev del: normal.simps)
  have q_ne: "join_sep (rev (pre # st)) \<noteq> []"
    using last_join_sep [OF segs_ne last_ne] by simp
  have "pre \<noteq> []" "last pre \<noteq> CHR ''/''"
    using pre plain_ends [of pre] by (simp_all add: plain_def)
  then have last_p: "last ?p \<noteq> CHR ''/''" by simp
  have hd_p: "hd ?p = hd t" using False by simp
  have "path_normalize ?p = (if isAbs then ''/'' else []) @ join_sep (rev (pre # st))"
    using q q_ne last_p hd_p False
    by (simp add: path_normalize_def isAbs_def del: rev.simps)
  moreover have "path_join [t, pre] = path_normalize ?p"
    using False \<open>pre \<noteq> []\<close> by (simp add: path_join_def)
  ultimately show ?thesis using nst by metis
qed

lemma join_under:
  assumes pre: "plain pre" and dot: "hd pre \<noteq> CHR ''.''"
    and suf: "CHR ''/'' \<notin> set suf" and name: "plain name"
  shows "path_join [path_join [t, pre] @ suf, name] = path_join [t, pre] @ suf @ ''/'' @ name"
proof -
  obtain isAbs st where nst: "normal (\<not> isAbs) (pre # st)"
    and shape: "path_join [t, pre] = (if isAbs then ''/'' else []) @ join_sep (rev (pre # st))"
    using join_shape [OF pre] by blast
  let ?A = "(if isAbs then ''/'' else [])"
  let ?dir = "path_join [t, pre] @ suf"
  have ps: "plain (pre @ suf)"
    using pre dot suf by (cases pre) (auto simp: plain_def)
  have st: "normal (\<not> isAbs) st" using nst by simp
  have n2: "normal (\<not> isAbs) (name # (pre @ suf) # st)"
    by (intro plain_normal name ps st)
  have dir: "?dir = ?A @ join_sep (rev ((pre @ suf) # st))"
    by (simp add: shape join_sep_last_append)
  have "path_join [t, pre] \<noteq> []"
    using last_join_sep [of "rev (pre # st)"] pre by (simp add: shape plain_def)
  then have dir_ne: "?dir \<noteq> []" by simp
  have joined: "?dir @ ''/'' @ name = ?A @ join_sep (rev (name # (pre @ suf) # st))"
    using join_sep_snoc [of "rev st @ [pre @ suf]" name] by (simp add: dir)
  have "path_join [?dir, name] = path_normalize (?dir @ ''/'' @ name)"
    using dir_ne name by (simp add: path_join_def plain_def)
  also have "\<dots> = ?dir @ ''/'' @ name"
    unfolding joined by (rule normalize_fixed [OF n2]) simp
  finally show ?thesis by simp
qed

lemma join_sep_append:
  "xs \<noteq> [] \<Longrightarrow> ys \<noteq> [] \<Longrightarrow> join_sep (xs @ ys) = join_sep xs @ ''/'' @ join_sep ys"
  by (induction xs rule: join_sep.induct) (auto simp: neq_Nil_conv)

lemma fold_no_dotdot:
  "normal allow base \<Longrightarrow> (\<forall>s \<in> set segs. CHR ''/'' \<notin> set s \<and> s \<noteq> ''..'') \<Longrightarrow>
   \<exists>ext. foldl (normalizeSegment allow) base segs = ext @ base \<and> normal allow (ext @ base)"
proof (induction segs arbitrary: base)
  case Nil
  then show ?case by simp
next
  case (Cons seg segs)
  show ?case
  proof (cases "seg = [] \<or> seg = ''.''")
    case True
    then have "normalizeSegment allow base seg = base" by (auto simp: normalizeSegment_def)
    then show ?thesis using Cons by simp
  next
    case False
    then have st: "normalizeSegment allow base seg = seg # base"
      using Cons.prems(2) by (auto simp: normalizeSegment_def)
    have "normal allow (seg # base)" using False Cons.prems by auto
    then obtain ext where "foldl (normalizeSegment allow) (seg # base) segs = ext @ seg # base"
      and "normal allow (ext @ seg # base)"
      using Cons.IH [of "seg # base"] Cons.prems(2) by auto
    then show ?thesis using st by (intro exI [of _ "ext @ [seg]"]) simp
  qed
qed

lemma normalize_extend:
  assumes st: "normal (\<not> isAbs) base" and ne: "base \<noteq> []" and name: "name \<noteq> []"
    and dd: "''..'' \<notin> set (split_sep name)"
  shows "\<exists>r. path_normalize ((if isAbs then ''/'' else []) @ join_sep (rev base) @ ''/'' @ name) =
             (if isAbs then ''/'' else []) @ join_sep (rev base) @ r \<and>
             (r = [] \<or> hd r = CHR ''/'')"
proof -
  let ?A = "if isAbs then ''/'' else []"
  let ?q = "join_sep (rev base)"
  let ?p = "?A @ ?q @ ''/'' @ name"
  have segs: "\<forall>s \<in> set (rev base). CHR ''/'' \<notin> set s \<and> s \<noteq> []"
    using normal_segments [OF st] by auto
  have segs_ne: "rev base \<noteq> []" using ne by simp
  have hd_ne: "hd (rev base) \<noteq> []" and last_ne: "last (rev base) \<noteq> []"
    using segs segs_ne by (auto simp: hd_rev last_rev)
  have q_ne: "?q \<noteq> []" using last_join_sep [OF segs_ne last_ne] by simp
  have hd_q: "hd ?q \<noteq> CHR ''/''"
    using hd_join_sep [OF segs_ne hd_ne] segs segs_ne hd_ne by (metis hd_in_set)
  have split_q: "split_sep ?q = rev base"
    using split_join [OF segs_ne] segs by blast
  have split_p: "split_sep ?p = (if isAbs then [[]] else []) @ rev base @ split_sep name"
    using split_q split_sep_append [of "?A @ ?q" name] split_sep_append [of "[]" ?q]
    by simp
  have f1: "foldl (normalizeSegment (\<not> isAbs)) [] ((if isAbs then [[]] else []) @ rev base) = base"
    using foldl_fixed [OF st] by (cases isAbs) (simp_all add: normalizeSegment_def)
  have nm: "\<forall>s \<in> set (split_sep name). CHR ''/'' \<notin> set s \<and> s \<noteq> ''..''"
    using dd split_sep_segments by metis
  obtain ext where ext: "foldl (normalizeSegment (\<not> isAbs)) base (split_sep name) = ext @ base"
    and nx: "normal (\<not> isAbs) (ext @ base)"
    using fold_no_dotdot [OF st nm] by blast
  have fold: "foldl (normalizeSegment (\<not> isAbs)) [] (split_sep ?p) = ext @ base"
  proof -
    let ?s0 = "(if isAbs then [[]] else []) @ rev base"
    have "foldl (normalizeSegment (\<not> isAbs)) [] (split_sep ?p) =
        foldl (normalizeSegment (\<not> isAbs)) [] (?s0 @ split_sep name)"
      by (simp only: split_p append_assoc)
    also have "\<dots> =
        foldl (normalizeSegment (\<not> isAbs)) (foldl (normalizeSegment (\<not> isAbs)) [] ?s0)
          (split_sep name)"
      by (rule foldl_append)
    also have "\<dots> = foldl (normalizeSegment (\<not> isAbs)) base (split_sep name)"
      by (simp only: f1)
    finally show ?thesis by (simp only: ext)
  qed
  have isAbs_p: "(hd ?p = CHR ''/'') = isAbs" using hd_q q_ne by simp
  have p_ne: "?p \<noteq> []" using q_ne by simp
  have nq: "normalizeString ?p (\<not> isAbs) = join_sep (rev base @ rev ext)"
    using fold by (simp add: normalizeString_def)
  let ?t = "if last ?p = CHR ''/'' then ''/'' else []"
  have nq_ne: "join_sep (rev base @ rev ext) \<noteq> []"
  proof (cases "ext = []")
    case True
    then show ?thesis using q_ne by simp
  next
    case False
    then show ?thesis using q_ne segs_ne by (simp add: join_sep_append)
  qed
  have res: "path_normalize ?p = ?A @ join_sep (rev base @ rev ext) @ ?t"
    using nq nq_ne p_ne isAbs_p by (cases isAbs) (simp_all add: path_normalize_def Let_def)
  show ?thesis
  proof (cases "ext = []")
    case True
    then have "path_normalize ?p = ?A @ ?q @ ?t" using res by simp
    then show ?thesis by (intro exI [of _ ?t]) simp
  next
    case False
    then have "path_normalize ?p = ?A @ ?q @ (''/'' @ join_sep (rev ext) @ ?t)"
      using res segs_ne by (simp add: join_sep_append)
    then show ?thesis by (intro exI [of _ "''/'' @ join_sep (rev ext) @ ?t"]) simp
  qed
qed

subsection \<open>The handlers\<close>

lemma host_tempDir: "project_tempDir (host ch) = ''/tmp/vipuproject-Ab3dEf''"
  by (simp add: project_tempDir_def mkdtempSync_def host_def path_join_def path_normalize_def
      normalizeString_def normalizeSegment_def)

lemma launches_append [simp]: "launches (xs @ ys) = launches xs @ launches ys"
  by (simp add: launches_def)

lemma responses_append [simp]: "responses (xs @ ys) = responses xs @ responses ys"
  by (simp add: responses_def)

lemma launches_Cons [simp]:
  "launches (x # xs) = (if is_launch x then x # launches xs else launches xs)"
  by (simp add: launches_def)

lemma responses_Cons [simp]:
  "responses (x # xs) = (if is_respond x then x # responses xs else responses xs)"
  by (simp add: responses_def)

lemma launches_Nil [simp]: "launches [] = []"
  by (simp add: launches_def)

lemma responses_Nil [simp]: "responses [] = []"
  by (simp add: responses_def)

lemma write_files_quiet:
  "launches (fst (write_files e d fs)) = [] \<and> responses (fst (write_files e d fs)) = []"
  by (induction fs) (auto simp: Let_def split: prod.splits)

lemma project_events_launches [simp]: "launches (project_events d img evs out err armed) = []"
  by (induction d img evs out err armed rule: project_events.induct) auto

lemma open_events_Cons [simp]: "open_events (ev # evs) = (\<not> is_closed ev \<and> open_events evs)"
  by (simp add: open_events_def)

lemma open_events_Nil [simp]: "open_events []"
  by (simp add: open_events_def)

lemma project_events_open:
  "open_events evs \<Longrightarrow> responses (project_events d img evs out err armed) = []"
  by (induction d img evs out err armed rule: project_events.induct) auto

lemma project_events_closed:
  "open_events evs \<Longrightarrow>
   project_events d img (evs @ Closed c sig # rest) out err armed =
   (if armed \<and> TimerFired \<in> set evs then [Kill ''SIGKILL''] else []) @
   [ClearTimeout, RmSync d,
    Respond (Json \<lparr>stdout = out @ stdout_text evs, stderr = err @ stderr_text evs,
      exitCode = (case c of None \<Rightarrow> CNull | Some n \<Rightarrow> CNum (int n)),
      timedOut = None, imageUsed = Some img\<rparr>)]"
proof (induction evs arbitrary: out err armed)
  case Nil
  then show ?case by simp
next
  case (Cons ev evs)
  then show ?case by (cases ev) auto
qed

lemma project_events_responses_le:
  "length (responses (project_events d img evs out err armed)) \<le> 1"
  by (induction d img evs out err armed rule: project_events.induct) auto

lemma exec_events_open: "open_events evs \<Longrightarrow> exec_events evs out err k ex = None"
  by (induction evs out err k ex rule: exec_events.induct) auto

lemma exec_events_closed:
  "open_events evs \<Longrightarrow>
   k \<or> (length out + length (stdout_of (takeWhile (\<lambda>ev. ev \<noteq> TimerFired) evs)) \<le> maxBuffer \<and>
        length err + length (stderr_of (takeWhile (\<lambda>ev. ev \<noteq> TimerFired) evs)) \<le> maxBuffer) \<Longrightarrow>
   exec_events (evs @ Closed c sig # rest) out err k ex =
   Some (exithandler c sig (k \<or> TimerFired \<in> set evs) ex,
         (if k then out else out @ stdout_of (takeWhile (\<lambda>ev. ev \<noteq> TimerFired) evs)),
         (if k then err else err @ stderr_of (takeWhile (\<lambda>ev. ev \<noteq> TimerFired) evs)))"
proof (induction evs arbitrary: out err k)
  case Nil
  then show ?case by simp
next
  case (Cons ev evs)
  then show ?case by (cases ev) auto
qed

lemmas path_eval = path_join_def path_normalize_def normalizeString_def normalizeSegment_def
  path_dirname_def

lemmas handler_eval = run.simps run_project.simps host_def project_body_def run_body_def
  project_tempDir_def run_dir_def run_filePath_def run_command_def run_cmd_def run_ext_def
  run_lang_def mkdtempSync_def dest_of_def safe_of_def dockerArgs_def project_image_def
  defaultCmd_def project_lang_def toLowerCase_def lower_char_def project_catch_def
  run_callback_def exithandler_def maxBuffer_def toString_def launches_def responses_def writes_def
  reaches_launch_def reaches_exec_def open_events_def

lemma writes_simps [simp]:
  "writes [] = []"
  "writes (x # xs) = (if is_write x then x # writes xs else writes xs)"
  "writes (xs @ ys) = writes xs @ writes ys"
  by (simp_all add: writes_def)

lemma project_events_writes [simp]: "writes (project_events d img evs out err armed) = []"
  by (induction d img evs out err armed rule: project_events.induct) auto

lemma isArray_guard: "isArray v \<Longrightarrow> \<not> (\<not> truthy v \<or> \<not> isArray v)"
  by (cases v) simp_all

lemma run_project_launch:
  assumes "reaches_launch e b" and "child e \<noteq> SpawnThrows"
  shows "launches (run_project e b) = [Spawn ''docker'' (dockerArgs e b)]"
proof -
  obtain effs where w: "write_files e (project_tempDir e) (elements (files b)) = (effs, True)"
    using assms(1) by (cases "write_files e (project_tempDir e) (elements (files b))")
      (simp add: reaches_launch_def)
  have q: "launches effs = []"
    using write_files_quiet [of e "project_tempDir e" "elements (files b)"] w by simp
  show ?thesis
    using assms w q isArray_guard [of "files b"]
    by (cases "child e") (simp_all add: run_project.simps reaches_launch_def)
qed

lemma run_launch:
  assumes "reaches_exec e b" and "child e \<noteq> SpawnThrows"
  shows "launches (run e b) = [Exec (run_command e b) 8000]"
proof -
  obtain c where c: "code b = Some c" "c \<noteq> []"
    using assms(1) by (cases "code b") (simp_all add: reaches_exec_def)
  show ?thesis
    using assms c
    by (cases "child e")
      (simp_all add: run.simps reaches_exec_def run_callback_def split: option.splits)
qed


lemma dest_of_fallback:
  assumes "CHR ''/'' \<notin> set (random_suffix e)" and "safe_of f = []"
  shows "dest_of (project_tempDir e) f = project_tempDir e @ ''/main.js''"
proof -
  have p: "plain ''vipuproject-''" by (simp add: plain_def)
  have n: "plain ''main.js''" by (simp add: plain_def)
  show ?thesis
    using join_under [OF p _ assms(1) n, of "tmpdir e"] assms(2)
    by (simp add: dest_of_def project_tempDir_def mkdtempSync_def)
qed

lemma safe_of_empty_iff:
  "safe_of f = [] \<longleftrightarrow>
   (case path f of None \<Rightarrow> True | Some p \<Rightarrow> set p \<subseteq> {CHR ''/'', CHR 0x5C})"
  by (auto simp: safe_of_def dropWhile_eq_Nil_conv split: option.splits)

lemma write_files_member:
  "snd (write_files e d fs) \<Longrightarrow> f \<in> set fs \<Longrightarrow>
   WriteFile (dest_of d f) (case content f of None \<Rightarrow> [] | Some c \<Rightarrow> c)
     \<in> set (fst (write_files e d fs))"
  by (induction fs) (auto simp: Let_def split: prod.splits if_splits)

lemma run_project_unfold:
  assumes "isArray (files b)" and "\<not> mkdtemp_fails e"
  shows "\<exists>rest. run_project e b =
           Mkdtemp (project_tempDir e) #
           fst (write_files e (project_tempDir e) (elements (files b))) @ rest"
proof -
  obtain effs ok where w: "write_files e (project_tempDir e) (elements (files b)) = (effs, ok)"
    by (cases "write_files e (project_tempDir e) (elements (files b))")
  have g: "\<not> (\<not> truthy (files b) \<or> \<not> isArray (files b))"
    by (rule isArray_guard [OF assms(1)])
  show ?thesis
    unfolding run_project.simps [of e b] using g assms(2) w by simp
qed

lemma run_project_effects:
  assumes "isArray (files b)" and "\<not> mkdtemp_fails e"
  shows "set (fst (write_files e (project_tempDir e) (elements (files b))))
           \<subseteq> set (run_project e b)"
proof -
  obtain rest where "run_project e b =
      Mkdtemp (project_tempDir e) #
      fst (write_files e (project_tempDir e) (elements (files b))) @ rest"
    using run_project_unfold [OF assms] by blast
  then show ?thesis by auto
qed

lemma open_events_append [simp]:
  "open_events (xs @ ys) = (open_events xs \<and> open_events ys)"
  by (simp add: open_events_def)

lemma run_running:
  assumes "reaches_exec e b" and "child e = Running evs"
    and "exec_events evs [] [] False None = Some (error, out, err)"
  shows "run e b =
    [Mkdtemp (run_dir e), WriteFile (run_filePath e b) (the (code b)),
     Exec (run_command e b) 8000] @ run_callback (run_dir e) error out err"
proof -
  obtain c where c: "code b = Some c" "c \<noteq> []"
    using assms(1) by (cases "code b") (simp_all add: reaches_exec_def)
  show ?thesis
    unfolding run.simps [of e b] using assms c by (simp add: reaches_exec_def)
qed

lemma project_running:
  assumes "reaches_launch e b" and "child e = Running evs"
  shows "run_project e b =
    Mkdtemp (project_tempDir e) #
    fst (write_files e (project_tempDir e) (elements (files b))) @
    Spawn ''docker'' (dockerArgs e b) # SetTimeout 20000 #
    project_events (project_tempDir e) (project_image b) evs [] [] True"
proof -
  obtain effs where w: "write_files e (project_tempDir e) (elements (files b)) = (effs, True)"
    using assms(1) by (cases "write_files e (project_tempDir e) (elements (files b))")
      (simp add: reaches_launch_def)
  have "isArray (files b)" using assms(1) by (simp add: reaches_launch_def)
  then have g: "\<not> (\<not> truthy (files b) \<or> \<not> isArray (files b))"
    by (rule isArray_guard)
  show ?thesis
    unfolding run_project.simps [of e b] using g assms w by (simp add: reaches_launch_def)
qed

lemma project_responses:
  assumes "reaches_launch e b" and "child e = Running (evs @ Closed c sig # rest)"
    and "open_events evs"
  shows "responses (run_project e b) =
    [Respond (Json \<lparr>stdout = stdout_text evs, stderr = stderr_text evs,
       exitCode = (case c of None \<Rightarrow> CNull | Some n \<Rightarrow> CNum (int n)),
       timedOut = None, imageUsed = Some (project_image b)\<rparr>)]"
proof -
  have q: "responses (fst (write_files e (project_tempDir e) (elements (files b)))) = []"
    using write_files_quiet by blast
  show ?thesis
    by (simp add: project_running [OF assms(1) assms(2)] q project_events_closed [OF assms(3)])
qed

lemma run_timeout_response:
  assumes "reaches_exec e b"
    and "child e = Running (before @ TimerFired # after @ Closed None (Some sg) # rest)"
    and "TimerFired \<notin> set before" and "open_events before" and "open_events after"
    and "length (stdout_of before) \<le> maxBuffer" and "length (stderr_of before) \<le> maxBuffer"
  shows "responses (run e b) =
    [Respond (Json \<lparr>stdout = stdout_of before, stderr = stderr_of before, exitCode = CNum 0,
       timedOut = Some True, imageUsed = None\<rparr>)]"
proof -
  let ?evs = "before @ TimerFired # after"
  have o: "open_events ?evs" using assms(4,5) by simp
  have t: "takeWhile (\<lambda>ev. ev \<noteq> TimerFired) ?evs = before"
    using assms(3) by (subst takeWhile_append2) auto
  have x: "exec_events (?evs @ Closed None (Some sg) # rest) [] [] False None =
      Some (exithandler None (Some sg) True None, stdout_of before, stderr_of before)"
    using exec_events_closed [OF o, of False "[]" "[]" None "Some sg" rest None] t assms(6,7)
    by simp
  have c: "child e = Running (?evs @ Closed None (Some sg) # rest)" using assms(2) by simp
  have "run e b =
    [Mkdtemp (run_dir e), WriteFile (run_filePath e b) (the (code b)),
     Exec (run_command e b) 8000] @
    run_callback (run_dir e) (exithandler None (Some sg) True None) (stdout_of before)
      (stderr_of before)"
    by (rule run_running [OF assms(1) c x])
  then show ?thesis
    by (simp add: run_callback_def exithandler_def)
qed

lemma project_catch_quiet [simp]:
  "launches (project_catch d) = []"
  "responses (project_catch d) = [Respond (Status 500 ''Docker execution failed'')]"
  by (simp_all add: project_catch_def)

lemma run_project_bounds:
  "length (launches (run_project e b)) \<le> 1 \<and> length (responses (run_project e b)) \<le> 1"
proof -
  obtain effs ok where w: "write_files e (project_tempDir e) (elements (files b)) = (effs, ok)"
    by (cases "write_files e (project_tempDir e) (elements (files b))")
  have q: "launches effs = []" "responses effs = []"
    using write_files_quiet [of e "project_tempDir e" "elements (files b)"] w by simp_all
  show ?thesis
  proof (cases "child e")
    case SpawnThrows
    then show ?thesis
      unfolding run_project.simps [of e b] using w q by simp
  next
    case (SpawnError name)
    then show ?thesis
      unfolding run_project.simps [of e b] using w q by simp
  next
    case (Running evs)
    then show ?thesis
      unfolding run_project.simps [of e b]
      using w q project_events_responses_le [of "project_tempDir e" "project_image b" evs "[]" "[]" True]
      by simp
  qed
qed

lemma project_throws:
  assumes "reaches_launch e b" and "child e = SpawnThrows"
  shows "launches (run_project e b) = [] \<and>
         responses (run_project e b) = [Respond (Status 500 ''Docker execution failed'')]"
proof -
  obtain effs where w: "write_files e (project_tempDir e) (elements (files b)) = (effs, True)"
    using assms(1) by (cases "write_files e (project_tempDir e) (elements (files b))")
      (simp add: reaches_launch_def)
  have q: "launches effs = []" "responses effs = []"
    using write_files_quiet [of e "project_tempDir e" "elements (files b)"] w by simp_all
  have "isArray (files b)" using assms(1) by (simp add: reaches_launch_def)
  then have g: "\<not> (\<not> truthy (files b) \<or> \<not> isArray (files b))"
    by (rule isArray_guard)
  show ?thesis
    unfolding run_project.simps [of e b] using g assms w q by (simp add: reaches_launch_def)
qed


lemma tempDir_shape:
  assumes "CHR ''/'' \<notin> set (random_suffix e)"
  shows "\<exists>isAbs base. normal (\<not> isAbs) base \<and> base \<noteq> [] \<and>
           project_tempDir e = (if isAbs then ''/'' else []) @ join_sep (rev base)"
proof -
  have p: "plain ''vipuproject-''" by (simp add: plain_def)
  obtain isAbs st where nst: "normal (\<not> isAbs) (''vipuproject-'' # st)"
    and shape: "path_join [tmpdir e, ''vipuproject-''] =
      (if isAbs then ''/'' else []) @ join_sep (rev (''vipuproject-'' # st))"
    using join_shape [OF p] by blast
  have ps: "plain (''vipuproject-'' @ random_suffix e)"
    using assms by (simp add: plain_def)
  have n: "normal (\<not> isAbs) ((''vipuproject-'' @ random_suffix e) # st)"
    using nst by (intro plain_normal ps) simp
  have "project_tempDir e =
      (if isAbs then ''/'' else []) @ join_sep (rev ((''vipuproject-'' @ random_suffix e) # st))"
    unfolding project_tempDir_def mkdtempSync_def shape
    using join_sep_last_append [of "rev st" "''vipuproject-''" "random_suffix e"] by simp
  then show ?thesis using n by blast
qed

lemma project_tempDir_not_Nil: "project_tempDir e \<noteq> []"
proof -
  have p: "plain ''vipuproject-''" by (simp add: plain_def)
  obtain isAbs st where
    "path_join [tmpdir e, ''vipuproject-''] =
      (if isAbs then ''/'' else []) @ join_sep (rev (''vipuproject-'' # st))"
    using join_shape [OF p] by blast
  moreover have "join_sep (rev (''vipuproject-'' # st)) \<noteq> []"
    using last_join_sep [of "rev (''vipuproject-'' # st)"] by simp
  ultimately show ?thesis by (simp add: project_tempDir_def mkdtempSync_def)
qed

lemma removals_simps [simp]:
  "removals [] = []"
  "removals (x # xs) = (if is_rm x then x # removals xs else removals xs)"
  "removals (xs @ ys) = removals xs @ removals ys"
  by (simp_all add: removals_def)

lemma write_files_no_rm: "removals (fst (write_files e d fs)) = []"
  by (induction fs) (auto simp: Let_def split: prod.splits)

lemma project_events_removals:
  "removals (project_events d img evs out err armed) =
   (if responses (project_events d img evs out err armed) = [] then [] else [RmSync d])"
  by (induction d img evs out err armed rule: project_events.induct) auto

lemma part_000_same_when_present: "path f = Some p \<Longrightarrow> safe_of_part_000 f = Some (safe_of f)"
  by (simp add: safe_of_part_000_def safe_of_def)

lemma write_files_part_000_same:
  "\<forall>f \<in> set fs. path f \<noteq> None \<Longrightarrow> write_files_part_000 e d fs = write_files e d fs"
proof (induction fs)
  case Nil
  then show ?case by simp
next
  case (Cons f fs)
  then obtain p where p: "path f = Some p" by auto
  have "safe_of_part_000 f = Some (safe_of f)" by (rule part_000_same_when_present [OF p])
  then show ?case using Cons by (simp add: dest_of_def Let_def)
qed

lemma run_project_part_000_same:
  "\<forall>f \<in> set (elements (files b)). path f \<noteq> None \<Longrightarrow> run_project_part_000 e b = run_project e b"
  by (simp add: run_project_part_000.simps run_project.simps write_files_part_000_same)

lemma toString_ascii: "\<forall>c \<in> set d. of_char c \<le> (0x7F :: nat) \<Longrightarrow> toString d = d"
proof -
  have "\<forall>c \<in> set d. of_char c \<le> (0x7F :: nat) \<Longrightarrow> utf8_decode 0 lo hi s d = d" for lo hi s
    by (induction d arbitrary: lo hi s) auto
  then show "\<forall>c \<in> set d. of_char c \<le> (0x7F :: nat) \<Longrightarrow> toString d = d"
    by (simp add: toString_def)
qed

lemma toString_cut_character:
  "toString [CHR 0x61, CHR 0xC3, CHR 0xA9] = [CHR 0x61, CHR 0xC3, CHR 0xA9] \<and>
   toString [CHR 0x61, CHR 0xC3] @ toString [CHR 0xA9] = CHR 0x61 # replacement @ replacement"
  by (simp add: toString_def)



section \<open>The claims\<close>

text \<open>
  C1. The claim: the file of every Project-mode entry ends up under the scratch
  directory, also for the path \<^verbatim>\<open>../../etc/passwd\<close>. The handler removes only leading
  separators, so the \<^verbatim>\<open>..\<close> segments survive and \<^verbatim>\<open>path.join\<close> resolves them: with
  the scratch directory \<^verbatim>\<open>/tmp/vipuproject-Ab3dEf\<close> the entry is written to
  \<^verbatim>\<open>/etc/passwd\<close>, which does not have the scratch directory as a prefix.
\<close>

theorem C1_traversal_escapes:
  "run_project (host (Running []))
     (project_body [\<lparr>path = Some ''../../etc/passwd'', content = Some ''x''\<rparr>] None) =
   [Mkdtemp ''/tmp/vipuproject-Ab3dEf'',
    Mkdir ''/etc'',
    WriteFile ''/etc/passwd'' ''x'',
    Spawn ''docker''
      [''run'', ''--rm'', ''--network'', ''none'', ''--memory'', ''512m'', ''--cpus'', ''1'',
       ''-v'', ''/tmp/vipuproject-Ab3dEf:/app'', ''-w'', ''/app'', ''node:18'', ''bash'', ''-lc'',
       ''node main.js''],
    SetTimeout 20000] \<and>
   \<not> prefix ''/tmp/vipuproject-Ab3dEf'' ''/etc/passwd''"
  by (simp add: handler_eval path_eval)

text \<open>
  C2. The claim: on every control path the scratch directory is removed exactly once.
  Two paths leave it behind. In Project mode, when \<^verbatim>\<open>docker\<close> cannot be started the
  child emits \<^verbatim>\<open>error\<close>, for which the handler has no listener: neither the \<^verbatim>\<open>close\<close>
  listener nor the \<^verbatim>\<open>catch\<close> block runs, so there is no \<^verbatim>\<open>rmSync\<close> (and no response). In
  Direct mode, when \<^verbatim>\<open>writeFileSync\<close> throws after the directory was made, the \<^verbatim>\<open>catch\<close>
  block responds without removing it (the \<^verbatim>\<open>catch\<close> block of Project mode does remove it).
\<close>

theorem C2_directory_left_behind:
  "run_project (host (SpawnError ''ENOENT''))
     (project_body [\<lparr>path = Some ''main.js'', content = Some []\<rparr>] None) =
   [Mkdtemp ''/tmp/vipuproject-Ab3dEf'',
    Mkdir ''/tmp/vipuproject-Ab3dEf'',
    WriteFile ''/tmp/vipuproject-Ab3dEf/main.js'' [],
    Spawn ''docker''
      [''run'', ''--rm'', ''--network'', ''none'', ''--memory'', ''512m'', ''--cpus'', ''1'',
       ''-v'', ''/tmp/vipuproject-Ab3dEf:/app'', ''-w'', ''/app'', ''node:18'', ''bash'', ''-lc'',
       ''node main.js''],
    SetTimeout 20000] \<and>
   run ((host (Running [])) \<lparr>write_fails := (\<lambda>p. True)\<rparr>) (run_body ''x'' None) =
   [Mkdtemp ''/tmp/vipurun-Ab3dEf'', Respond (Status 500 ''Failed to execute'')]"
  by (simp add: handler_eval path_eval)

text \<open>
  C3. The claim: a Direct-mode run killed at the deadline reports \<^verbatim>\<open>timedOut = true\<close> and
  an exit code that is \<^verbatim>\<open>null\<close> or a kill sentinel, never a successful value. The
  handler reports \<^verbatim>\<open>error.code || 0\<close>: after the kill the error's code is \<^verbatim>\<open>null\<close>, so
  the response carries \<^verbatim>\<open>exitCode: 0\<close>, the value of a successful run, next to
  \<^verbatim>\<open>timedOut: true\<close>. (Project mode passes the \<^verbatim>\<open>null\<close> on.)
\<close>

theorem C3_timeout_reports_exit_code_zero:
  "run (host (Running [TimerFired, Closed None (Some ''SIGTERM'')]))
     (run_body ''while(true){}'' None) =
   [Mkdtemp ''/tmp/vipurun-Ab3dEf'',
    WriteFile ''/tmp/vipurun-Ab3dEf/main.js'' ''while(true){}'',
    Exec (''node '' @ [CHR 0x22] @ ''/tmp/vipurun-Ab3dEf/main.js'' @ [CHR 0x22]) 8000,
    Respond (Json \<lparr>stdout = [], stderr = [], exitCode = CNum 0, timedOut = Some True,
      imageUsed = None\<rparr>),
    RmSync ''/tmp/vipurun-Ab3dEf'']"
  by (simp add: handler_eval path_eval)

text \<open>
  C4, as the claim states it, fails for the empty array: \<^verbatim>\<open>![]\<close> is false and
  \<^verbatim>\<open>Array.isArray([])\<close> is true, so the guard lets it pass. The scratch directory is
  made, nothing is written, and the container is started.
\<close>

theorem C4_empty_array_runs:
  "run_project (host (Running [Closed (Some 1) None])) (project_body [] None) =
   [Mkdtemp ''/tmp/vipuproject-Ab3dEf'',
    Spawn ''docker''
      [''run'', ''--rm'', ''--network'', ''none'', ''--memory'', ''512m'', ''--cpus'', ''1'',
       ''-v'', ''/tmp/vipuproject-Ab3dEf:/app'', ''-w'', ''/app'', ''node:18'', ''bash'', ''-lc'',
       ''node main.js''],
    SetTimeout 20000,
    ClearTimeout,
    RmSync ''/tmp/vipuproject-Ab3dEf'',
    Respond (Json \<lparr>stdout = [], stderr = [], exitCode = CNum 1, timedOut = None,
      imageUsed = Some ''node:18''\<rparr>)]"
  by (simp add: handler_eval path_eval)

text \<open>
  C4, amended. A Project-mode request whose \<^verbatim>\<open>files\<close> is missing or is not an array is
  answered with status 400 and \<^verbatim>\<open>files[] required\<close>, and that response is all the
  handler does: no scratch directory, no file, no process. An empty array is
  accepted: unless making the directory or the spawn call throws, no file is written
  and \<^verbatim>\<open>docker\<close> is started.
\<close>

theorem C4_files_must_be_array:
  "(\<not> isArray (files b) \<longrightarrow> run_project e b = [Respond (Status 400 ''files[] required'')]) \<and>
   (files b = JArray [] \<and> \<not> mkdtemp_fails e \<and> child e \<noteq> SpawnThrows \<longrightarrow>
      Mkdtemp (project_tempDir e) \<in> set (run_project e b) \<and>
      writes (run_project e b) = [] \<and>
      launches (run_project e b) = [Spawn ''docker'' (dockerArgs e b)])"
proof (intro conjI impI)
  assume "\<not> isArray (files b)"
  then show "run_project e b = [Respond (Status 400 ''files[] required'')]"
    by (simp add: run_project.simps)
next
  assume a: "files b = JArray [] \<and> \<not> mkdtemp_fails e \<and> child e \<noteq> SpawnThrows"
  then show "Mkdtemp (project_tempDir e) \<in> set (run_project e b)"
    using run_project_unfold [of b e] by auto
next
  assume a: "files b = JArray [] \<and> \<not> mkdtemp_fails e \<and> child e \<noteq> SpawnThrows"
  then show "writes (run_project e b) = []"
    by (cases "child e") (simp_all add: run_project.simps)
next
  assume a: "files b = JArray [] \<and> \<not> mkdtemp_fails e \<and> child e \<noteq> SpawnThrows"
  then have "reaches_launch e b" by (simp add: reaches_launch_def)
  then show "launches (run_project e b) = [Spawn ''docker'' (dockerArgs e b)]"
    using a by (simp add: run_project_launch)
qed

theorem C4_files_must_be_array_witness:
  "\<not> isArray (files \<lparr>code = None, files = JUndefined, language = None, command = None\<rparr>) \<and>
   run_project (host (Running []))
       \<lparr>code = None, files = JUndefined, language = None, command = None\<rparr> =
     [Respond (Status 400 ''files[] required'')] \<and>
   \<not> isArray (files \<lparr>code = None, files = JString ''main.js'', language = None, command = None\<rparr>) \<and>
   run_project (host (Running []))
       \<lparr>code = None, files = JString ''main.js'', language = None, command = None\<rparr> =
     [Respond (Status 400 ''files[] required'')] \<and>
   files (project_body [] None) = JArray [] \<and>
   \<not> mkdtemp_fails (host (Running [])) \<and> child (host (Running [])) \<noteq> SpawnThrows \<and>
   Mkdtemp ''/tmp/vipuproject-Ab3dEf'' \<in> set (run_project (host (Running [])) (project_body [] None)) \<and>
   writes (run_project (host (Running [])) (project_body [] None)) = [] \<and>
   launches (run_project (host (Running [])) (project_body [] None)) =
     [Spawn ''docker'' (dockerArgs (host (Running [])) (project_body [] None))]"
  using
    C4_files_must_be_array
      [of "\<lparr>code = None, files = JUndefined, language = None, command = None\<rparr>" "host (Running [])"]
    C4_files_must_be_array
      [of "\<lparr>code = None, files = JString ''main.js'', language = None, command = None\<rparr>"
        "host (Running [])"]
    C4_files_must_be_array [of "project_body [] None" "host (Running [])"]
  using host_tempDir [of "Running []"]
  by (simp add: host_def project_body_def)

text \<open>
  C5, as the claim states it, fails when the daemon is down: \<^verbatim>\<open>docker\<close> itself starts,
  prints its complaint and exits with 125, and the handler reports that like any
  other run, in the result shape, not as an error.
\<close>

theorem C5_daemon_down_is_a_result:
  "responses (run_project
     (host (Running [StderrData ''docker: Cannot connect to the Docker daemon.'',
                     Closed (Some 125) None]))
     (project_body [\<lparr>path = Some ''main.js'', content = Some []\<rparr>] None)) =
   [Respond (Json \<lparr>stdout = [], stderr = ''docker: Cannot connect to the Docker daemon.'',
      exitCode = CNum 125, timedOut = None, imageUsed = Some ''node:18''\<rparr>)]"
  by (simp add: handler_eval path_eval)

text \<open>
  C5, amended. No Project-mode request starts more than one process or gets more
  than one response. When the spawn call itself throws, nothing was started and the
  one response is status 500 with \<^verbatim>\<open>Docker execution failed\<close>. When \<^verbatim>\<open>docker\<close> starts
  and ends, for whatever reason (the daemon being down is one), the one response is
  in the result shape: it carries the exit code of \<^verbatim>\<open>docker\<close> and the image, and no
  \<^verbatim>\<open>timedOut\<close>.
\<close>

theorem C5_one_spawn_one_report:
  "length (launches (run_project e b)) \<le> 1 \<and>
   length (responses (run_project e b)) \<le> 1 \<and>
   (reaches_launch e b \<and> child e = SpawnThrows \<longrightarrow>
      launches (run_project e b) = [] \<and>
      responses (run_project e b) = [Respond (Status 500 ''Docker execution failed'')]) \<and>
   (reaches_launch e b \<and> child e = Running (evs @ Closed c sig # rest) \<and> open_events evs \<longrightarrow>
      launches (run_project e b) = [Spawn ''docker'' (dockerArgs e b)] \<and>
      (\<exists>r. responses (run_project e b) = [Respond (Json r)] \<and>
           exitCode r = (case c of None \<Rightarrow> CNull | Some n \<Rightarrow> CNum (int n)) \<and>
           timedOut r = None \<and> imageUsed r = Some (project_image b)))"
proof (intro conjI impI)
  show "length (launches (run_project e b)) \<le> 1" using run_project_bounds by blast
  show "length (responses (run_project e b)) \<le> 1" using run_project_bounds by blast
next
  assume "reaches_launch e b \<and> child e = SpawnThrows"
  then show "launches (run_project e b) = []"
    and "responses (run_project e b) = [Respond (Status 500 ''Docker execution failed'')]"
    using project_throws [of e b] by simp_all
next
  assume a: "reaches_launch e b \<and> child e = Running (evs @ Closed c sig # rest) \<and> open_events evs"
  then show "launches (run_project e b) = [Spawn ''docker'' (dockerArgs e b)]"
    using run_project_launch [of e b] by simp
  from a show "\<exists>r. responses (run_project e b) = [Respond (Json r)] \<and>
           exitCode r = (case c of None \<Rightarrow> CNull | Some n \<Rightarrow> CNum (int n)) \<and>
           timedOut r = None \<and> imageUsed r = Some (project_image b)"
    using project_responses [of e b evs c sig rest] by simp
qed

theorem C5_one_spawn_one_report_witness:
  "reaches_launch (host SpawnThrows) (project_body [] None) \<and>
   child (host SpawnThrows) = SpawnThrows \<and>
   launches (run_project (host SpawnThrows) (project_body [] None)) = [] \<and>
   responses (run_project (host SpawnThrows) (project_body [] None)) =
     [Respond (Status 500 ''Docker execution failed'')] \<and>
   reaches_launch (host (Running [StderrData ''no daemon'', Closed (Some 125) None]))
     (project_body [] None) \<and>
   open_events [StderrData ''no daemon''] \<and>
   length (launches (run_project (host (Running [StderrData ''no daemon'', Closed (Some 125) None]))
     (project_body [] None))) = 1 \<and>
   (\<exists>r. responses (run_project (host (Running [StderrData ''no daemon'', Closed (Some 125) None]))
       (project_body [] None)) = [Respond (Json r)] \<and>
     exitCode r = CNum 125 \<and> timedOut r = None \<and> imageUsed r = Some ''node:18'')"
proof -
  let ?b = "project_body [] None"
  let ?r = "host (Running ([StderrData ''no daemon''] @ Closed (Some 125) None # []))"
  have t1: "reaches_launch (host SpawnThrows) ?b"
    by (simp add: reaches_launch_def host_def project_body_def)
  have t2: "child (host SpawnThrows) = SpawnThrows"
    by (simp add: host_def)
  have r1: "reaches_launch ?r ?b"
    by (simp add: reaches_launch_def host_def project_body_def)
  have r2: "child ?r = Running ([StderrData ''no daemon''] @ Closed (Some 125) None # [])"
    by (simp add: host_def)
  have r3: "open_events [StderrData ''no daemon'']"
    by simp
  have i: "project_image ?b = ''node:18''"
    by (simp add: project_image_def project_lang_def project_body_def toLowerCase_def
        lower_char_def)
  show ?thesis
    using t1 t2 r1 r2 r3
      C5_one_spawn_one_report [where e = "host SpawnThrows" and b = ?b]
      C5_one_spawn_one_report [where e = ?r and b = ?b and evs = "[StderrData ''no daemon'']"
        and c = "Some 125" and sig = None and rest = "[]"]
    by (simp add: i)
qed









text \<open>
  C9, as the claim states it, fails in Direct mode: the handler calls \<^verbatim>\<open>exec\<close> with one
  command string, which \<^verbatim>\<open>exec\<close> gives to the host's shell; the interpreter and the
  file name are not passed as separate arguments.
\<close>

theorem C9_direct_mode_uses_shell:
  "launches (run (host (Running [])) (run_body ''console.log(1)'' None)) =
   [Exec (''node '' @ [CHR 0x22] @ ''/tmp/vipurun-Ab3dEf/main.js'' @ [CHR 0x22]) 8000]"
  by (simp add: handler_eval path_eval)

text \<open>
  C9, amended. Direct mode never spawns a process with separate arguments: its only
  launch is \<^verbatim>\<open>exec\<close> of one command string, the interpreter, a space and the file name
  in double quotes, with the timeout of 8000 ms, and every request that reaches the
  launch makes it. Project mode is the one that spawns directly: \<^verbatim>\<open>docker\<close> with a
  list of arguments, the last three of which are \<^verbatim>\<open>bash\<close>, \<^verbatim>\<open>-lc\<close> and the command, so
  the shell that reads the command is the one inside the container.
\<close>

theorem C9_launch_kinds:
  "set (launches (run e b)) \<subseteq> {Exec (run_cmd b @ '' '' @ [CHR 0x22] @ run_filePath e b @ [CHR 0x22]) 8000} \<and>
   (reaches_exec e b \<and> child e \<noteq> SpawnThrows \<longrightarrow>
      launches (run e b) = [Exec (run_cmd b @ '' '' @ [CHR 0x22] @ run_filePath e b @ [CHR 0x22]) 8000]) \<and>
   (reaches_launch e b \<and> child e \<noteq> SpawnThrows \<longrightarrow>
      launches (run_project e b) = [Spawn ''docker'' (dockerArgs e b)] \<and>
      drop 13 (dockerArgs e b) =
        [''bash'', ''-lc'',
         (case command b of None \<Rightarrow> defaultCmd b | Some c \<Rightarrow> if c = [] then defaultCmd b else c)])"
proof (intro conjI impI)
  show "set (launches (run e b)) \<subseteq> {Exec (run_cmd b @ '' '' @ [CHR 0x22] @ run_filePath e b @ [CHR 0x22]) 8000}"
    by (cases "child e")
      (auto simp: run.simps run_callback_def run_command_def split: option.splits if_splits)
next
  assume "reaches_exec e b \<and> child e \<noteq> SpawnThrows"
  then show "launches (run e b) = [Exec (run_cmd b @ '' '' @ [CHR 0x22] @ run_filePath e b @ [CHR 0x22]) 8000]"
    using run_launch [of e b] by (simp add: run_command_def)
next
  assume "reaches_launch e b \<and> child e \<noteq> SpawnThrows"
  then show "launches (run_project e b) = [Spawn ''docker'' (dockerArgs e b)]"
    by (simp add: run_project_launch)
next
  show "drop 13 (dockerArgs e b) =
        [''bash'', ''-lc'',
         (case command b of None \<Rightarrow> defaultCmd b | Some c \<Rightarrow> if c = [] then defaultCmd b else c)]"
    by (simp add: dockerArgs_def)
qed

theorem C9_launch_kinds_witness:
  "reaches_exec (host (Running [])) (run_body ''console.log(1)'' None) \<and>
   child (host (Running [])) \<noteq> SpawnThrows \<and>
   launches (run (host (Running [])) (run_body ''console.log(1)'' None)) =
     [Exec (''node '' @ [CHR 0x22] @ ''/tmp/vipurun-Ab3dEf/main.js'' @ [CHR 0x22]) 8000] \<and>
   reaches_launch (host (Running [])) (project_body [] None) \<and>
   launches (run_project (host (Running [])) (project_body [] None)) =
     [Spawn ''docker'' (dockerArgs (host (Running [])) (project_body [] None))] \<and>
   drop 13 (dockerArgs (host (Running [])) (project_body [] None)) =
     [''bash'', ''-lc'', ''node main.js'']"
proof -
  let ?e = "host (Running [])"
  have c: "child ?e \<noteq> SpawnThrows"
    by (simp add: host_def)
  have x: "reaches_exec ?e (run_body ''console.log(1)'' None)"
    by (simp add: reaches_exec_def host_def run_body_def)
  have l: "reaches_launch ?e (project_body [] None)"
    by (simp add: reaches_launch_def host_def project_body_def)
  have f: "run_cmd (run_body ''console.log(1)'' None) = ''node''"
    "run_filePath ?e (run_body ''console.log(1)'' None) = ''/tmp/vipurun-Ab3dEf/main.js''"
    by (simp_all add: handler_eval path_eval)
  have d: "command (project_body [] None) = None"
    "defaultCmd (project_body [] None) = ''node main.js''"
    by (simp_all add: handler_eval)
  show ?thesis
    using c x l
      C9_launch_kinds [of ?e "run_body ''console.log(1)'' None"]
      C9_launch_kinds [of ?e "project_body [] None"]
    by (simp add: f d)
qed

text \<open>
  C10. The claim: a Project-mode entry whose path is absent, empty or made of
  separators only is not rejected, and its content is written to \<^verbatim>\<open>main.js\<close> in the
  scratch directory. The handler of \<^verbatim>\<open>src/server/routes.ts\<close> does that (it reads
  \<^verbatim>\<open>f.path || ""\<close>). The copy in \<^verbatim>\<open>src/unnamed/part_000\<close> calls \<^verbatim>\<open>f.path.replace\<close> on
  the path as it is: for an entry without a path that throws, the \<^verbatim>\<open>catch\<close> block
  removes the scratch directory and the request is answered with status 500; no file
  is written and nothing is started.
\<close>

theorem C10_part_000_rejects_absent_path:
  "run_project_part_000 (host (Running []))
     (project_body [\<lparr>path = None, content = Some ''console.log(1)''\<rparr>] None) =
   [Mkdtemp ''/tmp/vipuproject-Ab3dEf'',
    RmSync ''/tmp/vipuproject-Ab3dEf'',
    Respond (Status 500 ''Docker execution failed'')] \<and>
   run_project (host (Running []))
     (project_body [\<lparr>path = None, content = Some ''console.log(1)''\<rparr>] None) =
   [Mkdtemp ''/tmp/vipuproject-Ab3dEf'',
    Mkdir ''/tmp/vipuproject-Ab3dEf'',
    WriteFile ''/tmp/vipuproject-Ab3dEf/main.js'' ''console.log(1)'',
    Spawn ''docker''
      [''run'', ''--rm'', ''--network'', ''none'', ''--memory'', ''512m'', ''--cpus'', ''1'',
       ''-v'', ''/tmp/vipuproject-Ab3dEf:/app'', ''-w'', ''/app'', ''node:18'', ''bash'', ''-lc'',
       ''node main.js''],
    SetTimeout 20000]"
  by (simp add: handler_eval path_eval run_project_part_000.simps safe_of_part_000_def)

section \<open>What does hold of the written paths and of the clean-up\<close>

text \<open>
  Beside C1: an entry whose path, after the leading separators are removed, has no
  \<^verbatim>\<open>..\<close> segment is written inside the scratch directory: its destination is the
  directory's name, followed by nothing or by a slash and more.
\<close>

theorem dest_under_tempDir:
  assumes "CHR ''/'' \<notin> set (random_suffix e)" and "''..'' \<notin> set (split_sep (safe_of f))"
  shows "\<exists>r. dest_of (project_tempDir e) f = project_tempDir e @ r \<and> (r = [] \<or> hd r = CHR ''/'')"
proof -
  define name where "name = (if safe_of f = [] then ''main.js'' else safe_of f)"
  have name: "name \<noteq> []" by (simp add: name_def)
  have dd: "''..'' \<notin> set (split_sep name)"
    using assms(2) by (simp add: name_def)
  obtain isAbs base where n: "normal (\<not> isAbs) base" and ne: "base \<noteq> []"
    and shape: "project_tempDir e = (if isAbs then ''/'' else []) @ join_sep (rev base)"
    using tempDir_shape [OF assms(1)] by blast
  have "dest_of (project_tempDir e) f = path_normalize (project_tempDir e @ ''/'' @ name)"
    using name project_tempDir_not_Nil [of e] by (simp add: dest_of_def name_def path_join_def)
  also have "\<dots> =
      path_normalize ((if isAbs then ''/'' else []) @ join_sep (rev base) @ ''/'' @ name)"
    by (simp add: shape)
  finally show ?thesis
    using normalize_extend [OF n ne name dd] by (simp add: shape)
qed

theorem dest_under_tempDir_witness:
  "CHR ''/'' \<notin> set (random_suffix (host (Running []))) \<and>
   ''..'' \<notin> set (split_sep (safe_of \<lparr>path = Some ''/src/./lib//util.js'', content = None\<rparr>)) \<and>
   dest_of (project_tempDir (host (Running [])))
     \<lparr>path = Some ''/src/./lib//util.js'', content = None\<rparr> =
   project_tempDir (host (Running [])) @ ''/src/lib/util.js''"
proof -
  let ?e = "host (Running [])"
  let ?f = "\<lparr>path = Some ''/src/./lib//util.js'', content = None\<rparr>"
  have 1: "CHR ''/'' \<notin> set (random_suffix ?e)" by (simp add: host_def)
  have 2: "''..'' \<notin> set (split_sep (safe_of ?f))" by (simp add: safe_of_def)
  have 3: "dest_of (project_tempDir ?e) ?f = project_tempDir ?e @ ''/src/lib/util.js''"
    by (simp add: host_tempDir dest_of_def safe_of_def path_eval)
  show ?thesis using 1 2 3 dest_under_tempDir [OF 1 2] by simp
qed

text \<open>
  Beside C10: in \<^verbatim>\<open>src/server/routes.ts\<close> an entry whose path is absent, empty or made
  of separators only is not rejected. Its destination is \<^verbatim>\<open>main.js\<close> directly in the
  scratch directory, and in every request whose files can all be written, its content
  (the empty text when absent) is written there. The directory name ends in the
  characters \<^verbatim>\<open>mkdtempSync\<close> chose, which are not slashes.
\<close>

theorem routes_fallback_main_js:
  assumes "files b = JArray fs" and "f \<in> set fs"
    and "case path f of None \<Rightarrow> True | Some p \<Rightarrow> set p \<subseteq> {CHR ''/'', CHR 0x5C}"
    and "\<not> mkdtemp_fails e"
    and "snd (write_files e (project_tempDir e) fs)"
    and "CHR ''/'' \<notin> set (random_suffix e)"
  shows "dest_of (project_tempDir e) f = project_tempDir e @ ''/main.js'' \<and>
         WriteFile (project_tempDir e @ ''/main.js'') (case content f of None \<Rightarrow> [] | Some c \<Rightarrow> c)
           \<in> set (run_project e b)"
proof -
  have s: "safe_of f = []" using assms(3) by (simp add: safe_of_empty_iff)
  have d: "dest_of (project_tempDir e) f = project_tempDir e @ ''/main.js''"
    by (rule dest_of_fallback [OF assms(6) s])
  have "WriteFile (dest_of (project_tempDir e) f) (case content f of None \<Rightarrow> [] | Some c \<Rightarrow> c)
     \<in> set (fst (write_files e (project_tempDir e) fs))"
    by (rule write_files_member [OF assms(5) assms(2)])
  moreover have "set (fst (write_files e (project_tempDir e) fs)) \<subseteq> set (run_project e b)"
    using run_project_effects [of b e] assms(1) assms(4) by simp
  ultimately show ?thesis using d by auto
qed

theorem routes_fallback_main_js_witness:
  "files (project_body [\<lparr>path = Some ''//'', content = Some ''console.log(1)''\<rparr>] None) =
     JArray [\<lparr>path = Some ''//'', content = Some ''console.log(1)''\<rparr>] \<and>
   \<lparr>path = Some ''//'', content = Some ''console.log(1)''\<rparr>
     \<in> set [\<lparr>path = Some ''//'', content = Some ''console.log(1)''\<rparr>] \<and>
   \<not> mkdtemp_fails (host (Running [])) \<and>
   snd (write_files (host (Running [])) (project_tempDir (host (Running [])))
     [\<lparr>path = Some ''//'', content = Some ''console.log(1)''\<rparr>]) \<and>
   CHR ''/'' \<notin> set (random_suffix (host (Running []))) \<and>
   WriteFile ''/tmp/vipuproject-Ab3dEf/main.js'' ''console.log(1)''
     \<in> set (run_project (host (Running []))
         (project_body [\<lparr>path = Some ''//'', content = Some ''console.log(1)''\<rparr>] None))"
proof -
  let ?f = "\<lparr>path = Some ''//'', content = Some ''console.log(1)''\<rparr>"
  let ?e = "host (Running [])"
  have 1: "files (project_body [?f] None) = JArray [?f]" by (simp add: project_body_def)
  have 2: "?f \<in> set [?f]" by simp
  have 3: "case path ?f of None \<Rightarrow> True | Some p \<Rightarrow> set p \<subseteq> {CHR ''/'', CHR 0x5C}" by simp
  have 4: "\<not> mkdtemp_fails ?e" by (simp add: host_def)
  have 5: "snd (write_files ?e (project_tempDir ?e) [?f])" by (simp add: host_def Let_def)
  have 6: "CHR ''/'' \<notin> set (random_suffix ?e)" by (simp add: host_def)
  show ?thesis
    using 1 2 4 5 6 routes_fallback_main_js [OF 1 2 3 4 5 6] by (simp add: host_tempDir)
qed

text \<open>
  Beside C2: an attempt that got its response did remove its scratch directory, once.
  In Project mode this is every answered request that had made the directory (the
  \<^verbatim>\<open>close\<close> listener and the \<^verbatim>\<open>catch\<close> block both remove it); in Direct mode it is
  every request whose \<^verbatim>\<open>exec\<close> callback ran.
\<close>

theorem answered_attempt_removed_its_directory:
  "(Mkdtemp (project_tempDir e) \<in> set (run_project e b) \<and> responses (run_project e b) \<noteq> [] \<longrightarrow>
      removals (run_project e b) = [RmSync (project_tempDir e)]) \<and>
   (launches (run e b) \<noteq> [] \<and> responses (run e b) \<noteq> [] \<longrightarrow>
      removals (run e b) = [RmSync (run_dir e)])"
proof (intro conjI impI)
  assume a: "Mkdtemp (project_tempDir e) \<in> set (run_project e b) \<and> responses (run_project e b) \<noteq> []"
  obtain effs ok where w: "write_files e (project_tempDir e) (elements (files b)) = (effs, ok)"
    by (cases "write_files e (project_tempDir e) (elements (files b))")
  have q: "removals effs = []" "responses effs = []"
    using write_files_no_rm [of e "project_tempDir e" "elements (files b)"]
      write_files_quiet [of e "project_tempDir e" "elements (files b)"] w by simp_all
  have t: "project_tempDir e \<noteq> []" by (rule project_tempDir_not_Nil)
  show "removals (run_project e b) = [RmSync (project_tempDir e)]"
  proof (cases "child e")
    case SpawnThrows
    then show ?thesis
      using a unfolding run_project.simps [of e b]
      by (simp add: w q t project_catch_def split: if_splits)
  next
    case (SpawnError name)
    then show ?thesis
      using a unfolding run_project.simps [of e b]
      by (simp add: w q t project_catch_def split: if_splits)
  next
    case (Running evs)
    then show ?thesis
      using a unfolding run_project.simps [of e b]
      by (simp add: w q t project_catch_def project_events_removals split: if_splits)
  qed
next
  assume a: "launches (run e b) \<noteq> [] \<and> responses (run e b) \<noteq> []"
  show "removals (run e b) = [RmSync (run_dir e)]"
  proof (cases "child e")
    case SpawnThrows
    then show ?thesis
      using a unfolding run.simps [of e b]
      by (simp add: run_callback_def split: option.splits if_splits)
  next
    case (SpawnError name)
    then show ?thesis
      using a unfolding run.simps [of e b]
      by (simp add: run_callback_def split: option.splits if_splits)
  next
    case (Running evs)
    then show ?thesis
      using a unfolding run.simps [of e b]
      by (simp add: run_callback_def split: option.splits if_splits)
  qed
qed

theorem answered_attempt_removed_its_directory_witness:
  "Mkdtemp (project_tempDir (host (Running [Closed (Some 0) None])))
     \<in> set (run_project (host (Running [Closed (Some 0) None])) (project_body [] None)) \<and>
   responses (run_project (host (Running [Closed (Some 0) None])) (project_body [] None)) \<noteq> [] \<and>
   removals (run_project (host (Running [Closed (Some 0) None])) (project_body [] None)) =
     [RmSync ''/tmp/vipuproject-Ab3dEf''] \<and>
   launches (run (host (Running [Closed (Some 0) None])) (run_body ''1'' None)) \<noteq> [] \<and>
   responses (run (host (Running [Closed (Some 0) None])) (run_body ''1'' None)) \<noteq> [] \<and>
   removals (run (host (Running [Closed (Some 0) None])) (run_body ''1'' None)) =
     [RmSync ''/tmp/vipurun-Ab3dEf'']"
proof -
  let ?e = "host (Running [Closed (Some 0) None])"
  have 1: "Mkdtemp (project_tempDir ?e) \<in> set (run_project ?e (project_body [] None))"
    by (simp add: handler_eval path_eval)
  have 2: "responses (run_project ?e (project_body [] None)) \<noteq> []"
    by (simp add: handler_eval path_eval)
  have 3: "launches (run ?e (run_body ''1'' None)) \<noteq> []"
    by (simp add: handler_eval path_eval)
  have 4: "responses (run ?e (run_body ''1'' None)) \<noteq> []"
    by (simp add: handler_eval path_eval)
  have d: "run_dir ?e = ''/tmp/vipurun-Ab3dEf''"
    by (simp add: run_dir_def mkdtempSync_def host_def path_eval)
  show ?thesis
    using 1 2 3 4
      answered_attempt_removed_its_directory [of ?e "project_body [] None"]
      answered_attempt_removed_its_directory [of ?e "run_body ''1'' None"]
    by (simp add: d host_tempDir)
qed

text \<open>
  Beside C3: the exit code 0 is what Direct mode reports for every run that \<^verbatim>\<open>exec\<close>
  killed at the deadline and a signal ended, whatever the program and whatever it had
  printed (within \<^verbatim>\<open>maxBuffer\<close>); \<^verbatim>\<open>timedOut\<close> is the only field that tells such a run from
  a successful one.
\<close>

theorem direct_timeout_reports_zero:
  "reaches_exec e b \<and>
   child e = Running (before @ TimerFired # after @ Closed None (Some sg) # rest) \<and>
   TimerFired \<notin> set before \<and> open_events before \<and> open_events after \<and>
   length (stdout_of before) \<le> maxBuffer \<and> length (stderr_of before) \<le> maxBuffer \<longrightarrow>
   responses (run e b) =
     [Respond (Json \<lparr>stdout = stdout_of before, stderr = stderr_of before, exitCode = CNum 0,
        timedOut = Some True, imageUsed = None\<rparr>)]"
  using run_timeout_response [of e b before after sg rest] by blast

theorem direct_timeout_reports_zero_witness:
  "reaches_exec (host (Running [StderrData ''warn'', TimerFired, Closed None (Some ''SIGTERM'')]))
     (run_body ''import time; time.sleep(60)'' (Some ''python'')) \<and>
   TimerFired \<notin> set [StderrData ''warn''] \<and> open_events [StderrData ''warn''] \<and>
   open_events [] \<and>
   length (stdout_of [StderrData ''warn'']) \<le> maxBuffer \<and>
   length (stderr_of [StderrData ''warn'']) \<le> maxBuffer \<and>
   responses (run (host (Running [StderrData ''warn'', TimerFired, Closed None (Some ''SIGTERM'')]))
     (run_body ''import time; time.sleep(60)'' (Some ''python''))) =
     [Respond (Json \<lparr>stdout = [], stderr = ''warn'', exitCode = CNum 0, timedOut = Some True,
        imageUsed = None\<rparr>)]"
proof -
  let ?e = "host (Running ([StderrData ''warn''] @ TimerFired # [] @
       Closed None (Some ''SIGTERM'') # []))"
  let ?b = "run_body ''import time; time.sleep(60)'' (Some ''python'')"
  have 1: "reaches_exec ?e ?b"
    by (simp add: reaches_exec_def host_def run_body_def)
  have 2: "child ?e = Running ([StderrData ''warn''] @ TimerFired # [] @
       Closed None (Some ''SIGTERM'') # [])"
    by (simp add: host_def)
  have 3: "TimerFired \<notin> set [StderrData ''warn''] \<and> open_events [StderrData ''warn''] \<and>
       open_events [] \<and>
       length (stdout_of [StderrData ''warn'']) \<le> maxBuffer \<and>
       length (stderr_of [StderrData ''warn'']) \<le> maxBuffer"
    by (simp add: maxBuffer_def)
  show ?thesis
    using 1 2 3
      direct_timeout_reports_zero [of ?e ?b "[StderrData ''warn'']" "[]" "''SIGTERM''" "[]"]
    by simp
qed

end
